theory Spec2Isabelle
  imports Complex_Main
begin

section \<open>Python strings\<close>

text \<open>
  A Python \<open>str\<close> is a sequence of Unicode code points, so a string is a list of code
  points (natural numbers): \<open>str.strip\<close>, \<open>str.replace\<close> and \<open>str.split\<close> all work on
  code points, and the Japanese comma is the single code point U+3001.  An ASCII literal
  of the source is written \<open>lit ''...''\<close>.
\<close>

type_synonym pystr = "nat list"

definition lit :: "string \<Rightarrow> pystr" where
  "lit s = map of_char s"

text \<open>The separators of the source: \<open>','\<close>, \<open>' '\<close>, the Japanese comma, and the newline.\<close>

definition comma :: nat where
  "comma = 44"

definition space :: nat where
  "space = 32"

definition japanese_comma :: nat where
  "japanese_comma = 12289"

definition newline :: nat where
  "newline = 10"

text \<open>
  The code points \<open>str.strip()\<close> removes (those with \<open>str.isspace()\<close> true): U+0009..U+000D,
  U+001C..U+0020, U+0085, U+00A0, U+1680, U+2000..U+200A, U+2028, U+2029, U+202F, U+205F
  and U+3000.
\<close>

definition is_space :: "nat \<Rightarrow> bool" where
  "is_space c \<longleftrightarrow>
     (9 \<le> c \<and> c \<le> 13) \<or> (28 \<le> c \<and> c \<le> 32) \<or> c = 133 \<or> c = 160 \<or> c = 5760 \<or>
     (8192 \<le> c \<and> c \<le> 8202) \<or> c = 8232 \<or> c = 8233 \<or> c = 8239 \<or> c = 8287 \<or> c = 12288"

text \<open>\<open>s.strip()\<close>: leading and trailing whitespace removed.\<close>

definition py_strip :: "pystr \<Rightarrow> pystr" where
  "py_strip s = rev (dropWhile is_space (rev (dropWhile is_space s)))"

text \<open>\<open>s.replace(old, new)\<close> for one-character \<open>old\<close> and \<open>new\<close>, as the source calls it.\<close>

definition py_replace :: "nat \<Rightarrow> nat \<Rightarrow> pystr \<Rightarrow> pystr" where
  "py_replace old new s = map (\<lambda>c. if c = old then new else c) s"

text \<open>
  Splitting at every code point that satisfies \<open>sep\<close>: one piece more than there are
  separators, empty pieces kept.  \<open>s.split(',')\<close> is the instance \<open>py_split comma\<close>.
\<close>

fun split_where :: "(nat \<Rightarrow> bool) \<Rightarrow> pystr \<Rightarrow> pystr list" where
  "split_where sep [] = [[]]"
| "split_where sep (c # cs) =
     (if sep c then [] # split_where sep cs
      else (case split_where sep cs of
              [] \<Rightarrow> [[c]]
            | piece # pieces \<Rightarrow> (c # piece) # pieces))"

definition py_split :: "nat \<Rightarrow> pystr \<Rightarrow> pystr list" where
  "py_split sep s = split_where (\<lambda>c. c = sep) s"

text \<open>\<open>sep.join(xs)\<close>.\<close>

fun py_join :: "pystr \<Rightarrow> pystr list \<Rightarrow> pystr" where
  "py_join sep [] = []"
| "py_join sep [x] = x"
| "py_join sep (x # y # ys) = x @ sep @ py_join sep (y # ys)"

section \<open>Tokenising a line\<close>

text \<open>
  The main pass of \<open>process_file\<close>:
  \<^verbatim>\<open>words = [word.strip() for word in
             line.replace(JAPANESE_COMMA, ',').replace(' ', ',').split(',') if word.strip()]\<close>
\<close>

definition words_of_line :: "pystr \<Rightarrow> pystr list" where
  "words_of_line line =
     [py_strip word.
        word \<leftarrow> py_split comma (py_replace space comma (py_replace japanese_comma comma line)),
        py_strip word \<noteq> []]"

text \<open>
  The tokenisation as the specification words it: split the line at commas, Japanese
  commas and spaces, trim each piece, discard the empty pieces.
\<close>

definition is_separator :: "nat \<Rightarrow> bool" where
  "is_separator c \<longleftrightarrow> c = comma \<or> c = japanese_comma \<or> c = space"

definition spec_tokens :: "pystr \<Rightarrow> pystr list" where
  "spec_tokens line = filter (\<lambda>w. w \<noteq> []) (map py_strip (split_where is_separator line))"

text \<open>
  The first pass of \<open>process_file\<close> counts, for each line,
  \<^verbatim>\<open>len(line.replace(JAPANESE_COMMA, ',').strip().replace(' ', ',').split(','))\<close>
  (the line is stripped as a whole, and no piece is discarded).
\<close>

definition count_line :: "pystr \<Rightarrow> nat" where
  "count_line line =
     length (py_split comma (py_replace space comma (py_strip (py_replace japanese_comma comma line))))"

text \<open>
  \<open>for line in infile\<close>: the text of the file cut after every newline; only the last line
  may lack one.
\<close>

fun file_lines :: "pystr \<Rightarrow> pystr list" where
  "file_lines [] = []"
| "file_lines (c # cs) =
     (if c = newline then [c] # file_lines cs
      else (case file_lines cs of
              [] \<Rightarrow> [[c]]
            | l # ls \<Rightarrow> (c # l) # ls))"

text \<open>
  The first pass over the input:
  \<^verbatim>\<open>total_words = sum(len(...) for line in infile)\<close>
\<close>

definition first_pass :: "pystr \<Rightarrow> nat" where
  "first_pass text = sum_list (map count_line (file_lines text))"

section \<open>JSON values and Python's operations on them\<close>

text \<open>
  What \<open>response.json()\<close> returns: \<open>None\<close>, a bool, an int, a float (a finite one is its
  exact value; NaN and the infinities, which are not JSON, are left out), a string, a list,
  or a dict (the keys of a parsed object are distinct strings, kept in order).
\<close>

datatype json =
    JNull
  | JBool bool
  | JInt int
  | JFloat rat
  | JStr pystr
  | JArr "json list"
  | JObj "(pystr \<times> json) list"

datatype py_error =
    OSError
  | ConnectionError
  | JSONDecodeError
  | KeyError
  | IndexError
  | TypeError
  | AttributeError
  | ZeroDivisionError

text \<open>A raise ends the evaluation: \<open>Inl\<close> is the exception, \<open>Inr\<close> the value.\<close>

definition and_then :: "py_error + 'a \<Rightarrow> ('a \<Rightarrow> py_error + 'b) \<Rightarrow> py_error + 'b" where
  "and_then m f = (case m of Inl e \<Rightarrow> Inl e | Inr x \<Rightarrow> f x)"

fun map_py :: "('a \<Rightarrow> py_error + 'b) \<Rightarrow> 'a list \<Rightarrow> py_error + 'b list" where
  "map_py f [] = Inr []"
| "map_py f (x # xs) = and_then (f x) (\<lambda>y. and_then (map_py f xs) (\<lambda>ys. Inr (y # ys)))"

text \<open>Truth value of a value (\<open>not x\<close>, \<open>all([...])\<close>).\<close>

fun truthy :: "json \<Rightarrow> bool" where
  "truthy JNull = False"
| "truthy (JBool b) = b"
| "truthy (JInt i) = (i \<noteq> 0)"
| "truthy (JFloat r) = (r \<noteq> 0)"
| "truthy (JStr s) = (s \<noteq> [])"
| "truthy (JArr xs) = (xs \<noteq> [])"
| "truthy (JObj kvs) = (kvs \<noteq> [])"

text \<open>\<open>x[key]\<close> for a string key: only a dict takes one.\<close>

fun subscript :: "json \<Rightarrow> pystr \<Rightarrow> py_error + json" where
  "subscript (JObj kvs) key = (case map_of kvs key of None \<Rightarrow> Inl KeyError | Some v \<Rightarrow> Inr v)"
| "subscript _ key = Inl TypeError"

text \<open>\<open>x[0]\<close>: a dict parsed from JSON has no key \<open>0\<close>.\<close>

fun first_item :: "json \<Rightarrow> py_error + json" where
  "first_item (JArr []) = Inl IndexError"
| "first_item (JArr (x # xs)) = Inr x"
| "first_item (JStr []) = Inl IndexError"
| "first_item (JStr (c # cs)) = Inr (JStr [c])"
| "first_item (JObj kvs) = Inl KeyError"
| "first_item _ = Inl TypeError"

text \<open>\<open>x.get(key, fallback)\<close>: only a dict has the method.\<close>

fun py_get :: "json \<Rightarrow> pystr \<Rightarrow> json \<Rightarrow> py_error + json" where
  "py_get (JObj kvs) key fallback = Inr (case map_of kvs key of None \<Rightarrow> fallback | Some v \<Rightarrow> v)"
| "py_get _ key fallback = Inl AttributeError"

text \<open>
  \<open>x[:3]\<close>: a list or a string is cut to its first three items; a dict raises (a
  \<open>TypeError\<close>, from Python 3.12 on a \<open>KeyError\<close>), as does every other value.
\<close>

fun slice3 :: "json \<Rightarrow> py_error + json" where
  "slice3 (JArr xs) = Inr (JArr (take 3 xs))"
| "slice3 (JStr s) = Inr (JStr (take 3 s))"
| "slice3 _ = Inl TypeError"

text \<open>
  \<open>for item in x\<close>: the items of a list, the characters of a string, the keys of a dict.
\<close>

fun iterate :: "json \<Rightarrow> py_error + json list" where
  "iterate (JArr xs) = Inr xs"
| "iterate (JStr s) = Inr (map (\<lambda>c. JStr [c]) s)"
| "iterate (JObj kvs) = Inr (map (\<lambda>kv. JStr (fst kv)) kvs)"
| "iterate _ = Inl TypeError"

text \<open>
  \<open>v == w\<close>: bools, ints and floats compare by value (\<open>True == 1\<close>, \<open>1 == 1.0\<close>), lists item
  by item, dicts key by key; values of different kinds are unequal.
\<close>

fun number :: "json \<Rightarrow> rat option" where
  "number (JBool b) = Some (if b then 1 else 0)"
| "number (JInt i) = Some (of_int i)"
| "number (JFloat r) = Some r"
| "number _ = None"

fun py_eq :: "json \<Rightarrow> json \<Rightarrow> bool" where
  "py_eq JNull w = (w = JNull)"
| "py_eq (JStr s) w = (w = JStr s)"
| "py_eq (JArr xs) w = (case w of JArr ys \<Rightarrow> list_all2 py_eq xs ys | _ \<Rightarrow> False)"
| "py_eq (JObj kvs) w =
     (case w of
        JObj kws \<Rightarrow>
          length kvs = length kws \<and>
          list_all (\<lambda>(k, v). case map_of kws k of None \<Rightarrow> False | Some v' \<Rightarrow> py_eq v v') kvs
      | _ \<Rightarrow> False)"
| "py_eq v w = (case number w of None \<Rightarrow> False | Some q \<Rightarrow> number v = Some q)"

section \<open>The lookup: \<open>get_definitions\<close>\<close>

text \<open>
  The remote dictionary is a function from the URL requested to what \<open>requests.get\<close> does
  with it: it raises (no connection, a timeout, ...), or it returns a response with a
  status code and a body; \<open>response.json()\<close> raises on a body that is not JSON (\<open>None\<close>).
\<close>

datatype http_outcome = RequestFailed | Response int "json option"

definition search_url :: "pystr \<Rightarrow> pystr" where
  "search_url word = lit ''https://jisho.org/api/v1/search/words?keyword='' @ word"

definition response_json :: "json option \<Rightarrow> py_error + json" where
  "response_json body = (case body of None \<Rightarrow> Inl JSONDecodeError | Some v \<Rightarrow> Inr v)"

text \<open>The triple returned: \<open>(japanese_word, reading, flattened_definitions)\<close>.\<close>

type_synonym lookup = "json \<times> json \<times> json list"

text \<open>
  \<^verbatim>\<open>
  response = requests.get(url)
  if response.status_code != 200: return None
  data = response.json()
  if not data['data']: return None
  entry = data['data'][0]
  reading = entry['japanese'][0].get('reading', None)
  japanese_word = entry['japanese'][0].get('word', reading)
  definitions = [sense['english_definitions'] for sense in entry['senses'][:3]]
  flattened_definitions = [item for sublist in definitions for item in sublist][:3]
  if not all([entry, reading, japanese_word, flattened_definitions]): return None
  return japanese_word, reading, flattened_definitions
  \<close>
  \<open>Inl\<close> is an exception that leaves the function, \<open>Inr None\<close> the return of \<open>None\<close>.
\<close>

definition get_definitions :: "(pystr \<Rightarrow> http_outcome) \<Rightarrow> pystr \<Rightarrow> py_error + lookup option" where
  "get_definitions web word =
     (case web (search_url word) of
        RequestFailed \<Rightarrow> Inl ConnectionError
      | Response status_code body \<Rightarrow>
          if status_code \<noteq> 200 then Inr None
          else
            and_then (response_json body) (\<lambda>data.
            and_then (subscript data (lit ''data'')) (\<lambda>results.
            if \<not> truthy results then Inr None
            else
              and_then (subscript data (lit ''data'')) (\<lambda>results.
              and_then (first_item results) (\<lambda>entry.
              and_then (subscript entry (lit ''japanese'')) (\<lambda>japanese.
              and_then (first_item japanese) (\<lambda>form.
              and_then (py_get form (lit ''reading'') JNull) (\<lambda>reading.
              and_then (subscript entry (lit ''japanese'')) (\<lambda>japanese.
              and_then (first_item japanese) (\<lambda>form.
              and_then (py_get form (lit ''word'') reading) (\<lambda>japanese_word.
              and_then (subscript entry (lit ''senses'')) (\<lambda>senses.
              and_then (slice3 senses) (\<lambda>first_senses.
              and_then (iterate first_senses) (\<lambda>sense_list.
              and_then (map_py (\<lambda>sense. subscript sense (lit ''english_definitions'')) sense_list)
                (\<lambda>definitions.
              and_then (map_py iterate definitions) (\<lambda>sublists.
              let flattened_definitions = take 3 (concat sublists) in
              if \<not> (truthy entry \<and> truthy reading \<and> truthy japanese_word
                     \<and> flattened_definitions \<noteq> [])
              then Inr None
              else Inr (Some (japanese_word, reading, flattened_definitions))))))))))))))))))"

section \<open>The batch processor: \<open>process_file\<close>\<close>

text \<open>
  The files: the text a file opened for reading yields (\<open>None\<close> when the open fails), and
  whether a file can be opened for writing.  Two different paths are two different files.
\<close>

record filesystem =
  readable :: "pystr \<Rightarrow> pystr option"
  writable :: "pystr \<Rightarrow> bool"

text \<open>
  The three callbacks, as the calls made: \<open>update_checking_label(word)\<close>,
  \<open>progress_callback(progress)\<close> and \<open>clear_checking_label()\<close>; what the caller's functions
  do with a call is not part of the program.  The float \<open>words_checked / total_words\<close> is
  kept as the exact quotient it rounds.
\<close>

datatype event = Checking pystr | Progress rat | Cleared

text \<open>
  The variables of the second \<open>with\<close> block: the text written to \<open>outfile\<close>, the list
  \<open>not_found_words\<close>, the counter \<open>words_checked\<close> and the callbacks called so far.
\<close>

record loop_state =
  outfile :: pystr
  not_found_words :: "pystr list"
  words_checked :: nat
  calls :: "event list"

text \<open>
  Before the loop: nothing written, \<open>not_found_words = []\<close>, \<open>words_checked = 0\<close>, no
  callback called.
\<close>

definition start_state :: loop_state where
  "start_state = \<lparr>outfile = [], not_found_words = [], words_checked = 0, calls = []\<rparr>"

text \<open>
  A field of an f-string: a string is itself; any other value is formatted by Python's
  \<open>str\<close>, which is a parameter \<open>py_str\<close> of the model.
\<close>

definition format_value :: "(json \<Rightarrow> pystr) \<Rightarrow> json \<Rightarrow> pystr" where
  "format_value py_str v = (case v of JStr s \<Rightarrow> s | _ \<Rightarrow> py_str v)"

text \<open>\<open>', '.join(definitions)\<close>: a \<open>TypeError\<close> unless every item is a string.\<close>

fun str_items :: "json list \<Rightarrow> py_error + pystr list" where
  "str_items [] = Inr []"
| "str_items (JStr s # vs) = and_then (str_items vs) (\<lambda>ss. Inr (s # ss))"
| "str_items (_ # vs) = Inl TypeError"

definition join_definitions :: "json list \<Rightarrow> py_error + pystr" where
  "join_definitions definitions =
     and_then (str_items definitions) (\<lambda>ss. Inr (py_join (lit '', '') ss))"

text \<open>
  The text one found word adds to the output file:
  \<^verbatim>\<open>
  if japanese_word == reading:
      outfile.write(f"{reading};{', '.join(definitions)};\n")
  else:
      outfile.write(f"{japanese_word}[{reading}];{', '.join(definitions)};\n")
  \<close>
\<close>

definition output_record :: "(json \<Rightarrow> pystr) \<Rightarrow> lookup \<Rightarrow> py_error + pystr" where
  "output_record py_str result =
     (case result of (japanese_word, reading, definitions) \<Rightarrow>
        if py_eq japanese_word reading
        then and_then (join_definitions definitions) (\<lambda>joined.
               Inr (format_value py_str reading @ lit '';'' @ joined @ lit '';'' @ [newline]))
        else and_then (join_definitions definitions) (\<lambda>joined.
               Inr (format_value py_str japanese_word @ lit ''['' @ format_value py_str reading
                    @ lit ''];'' @ joined @ lit '';'' @ [newline])))"

text \<open>
  The body of \<open>for word in words\<close>.  The result is the exception that left it, if any, and
  the state reached.
\<close>

definition process_word ::
  "(pystr \<Rightarrow> http_outcome) \<Rightarrow> (json \<Rightarrow> pystr) \<Rightarrow> nat \<Rightarrow> loop_state \<Rightarrow> pystr
     \<Rightarrow> py_error option \<times> loop_state" where
  "process_word web py_str total_words st word =
     (let st1 = st\<lparr>calls := calls st @ [Checking word]\<rparr> in
      case get_definitions web word of
        Inl e \<Rightarrow> (Some e, st1)
      | Inr result \<Rightarrow>
          (case (case result of
                   Some found \<Rightarrow>
                     and_then (output_record py_str found) (\<lambda>text.
                       Inr (st1\<lparr>outfile := outfile st1 @ text\<rparr>))
                 | None \<Rightarrow> Inr (st1\<lparr>not_found_words := not_found_words st1 @ [word]\<rparr>)) of
             Inl e \<Rightarrow> (Some e, st1)
           | Inr st2 \<Rightarrow>
               (let st3 = st2\<lparr>words_checked := words_checked st2 + 1\<rparr> in
                if total_words = 0 then (Some ZeroDivisionError, st3)
                else (None, st3\<lparr>calls := calls st3
                        @ [Progress (of_nat (words_checked st3) / of_nat total_words)]\<rparr>))))"

fun process_words ::
  "(pystr \<Rightarrow> http_outcome) \<Rightarrow> (json \<Rightarrow> pystr) \<Rightarrow> nat \<Rightarrow> loop_state \<Rightarrow> pystr list
     \<Rightarrow> py_error option \<times> loop_state" where
  "process_words web py_str total_words st [] = (None, st)"
| "process_words web py_str total_words st (word # words) =
     (case process_word web py_str total_words st word of
        (Some e, st') \<Rightarrow> (Some e, st')
      | (None, st') \<Rightarrow> process_words web py_str total_words st' words)"

text \<open>The loop \<open>for line in infile\<close>.\<close>

fun process_lines ::
  "(pystr \<Rightarrow> http_outcome) \<Rightarrow> (json \<Rightarrow> pystr) \<Rightarrow> nat \<Rightarrow> loop_state \<Rightarrow> pystr list
     \<Rightarrow> py_error option \<times> loop_state" where
  "process_lines web py_str total_words st [] = (None, st)"
| "process_lines web py_str total_words st (line # lines) =
     (case process_words web py_str total_words st (words_of_line line) of
        (Some e, st') \<Rightarrow> (Some e, st')
      | (None, st') \<Rightarrow> process_lines web py_str total_words st' lines)"

text \<open>
  The section written after the loop:
  \<^verbatim>\<open>
  if not_found_words:
      outfile.write("\nDefinition Not Found:\n")
      for word in not_found_words: outfile.write(f"{word}\n")
  \<close>
\<close>

definition not_found_section :: "pystr list \<Rightarrow> pystr" where
  "not_found_section not_found =
     (if not_found = [] then []
      else [newline] @ lit ''Definition Not Found:'' @ [newline]
           @ concat (map (\<lambda>word. word @ [newline]) not_found))"

text \<open>
  What a run leaves: the exception that ended it (\<open>None\<close> when it returned), the files,
  and the callbacks called, in order.
\<close>

record run =
  raised :: "py_error option"
  files :: filesystem
  callbacks :: "event list"

text \<open>
  \<open>process_file\<close>.  The first \<open>with\<close> opens the input and counts; the second opens the input
  again and then the output for writing, which creates or empties it, before a line is
  read: when both paths name one file, the second pass reads the emptied file.  Nothing
  else changes the input between the two passes.  An exception inside the second \<open>with\<close>
  closes the output with what was written so far.
\<close>

definition process_file ::
  "(pystr \<Rightarrow> http_outcome) \<Rightarrow> (json \<Rightarrow> pystr) \<Rightarrow> filesystem \<Rightarrow> pystr \<Rightarrow> pystr \<Rightarrow> run" where
  "process_file web py_str fs input_filename output_filename =
     (case readable fs input_filename of
        None \<Rightarrow> \<lparr>raised = Some OSError, files = fs, callbacks = []\<rparr>
      | Some text \<Rightarrow>
          (let total_words = first_pass text in
           if \<not> writable fs output_filename
           then \<lparr>raised = Some OSError, files = fs, callbacks = []\<rparr>
           else
             (let opened = fs\<lparr>readable := (readable fs)(output_filename \<mapsto> [])\<rparr>;
                  infile = (case readable opened input_filename of None \<Rightarrow> [] | Some t \<Rightarrow> t);
                  start = start_state
              in case process_lines web py_str total_words start (file_lines infile) of
                   (Some e, st) \<Rightarrow>
                     \<lparr>raised = Some e,
                      files = fs\<lparr>readable := (readable fs)(output_filename \<mapsto> outfile st)\<rparr>,
                      callbacks = calls st\<rparr>
                 | (None, st) \<Rightarrow>
                     \<lparr>raised = None,
                      files = fs\<lparr>readable := (readable fs)(output_filename \<mapsto>
                                 outfile st @ not_found_section (not_found_words st))\<rparr>,
                      callbacks = calls st @ [Cleared]\<rparr>)))"

section \<open>The specification's vocabulary\<close>

text \<open>
  The definitions of this section are not code of the program: they name what the
  specification talks about, so that the theorems can compare the program with it.
\<close>

subsection \<open>Tokens of a file\<close>

text \<open>The tokens of the whole input, in the order the main pass meets them.\<close>

definition file_tokens :: "pystr \<Rightarrow> pystr list" where
  "file_tokens t = concat (map words_of_line (file_lines t))"

text \<open>
  The tokens the main pass reads: those of the input, unless the output is the same file,
  which opening it for writing has emptied.
\<close>

definition tokens_read :: "pystr \<Rightarrow> pystr \<Rightarrow> pystr \<Rightarrow> pystr list" where
  "tokens_read input_filename output_filename t =
     file_tokens (if input_filename = output_filename then [] else t)"

text \<open>A piece with a code point that is not whitespace: one the main pass keeps.\<close>

definition nonblank :: "pystr \<Rightarrow> bool" where
  "nonblank w \<longleftrightarrow> (\<exists>c\<in>set w. \<not> is_space c)"

subsection \<open>The shape of a response\<close>

text \<open>
  The value under a key of an object (\<open>None\<close> when the value is no object or lacks the key),
  and the items of a value as Python iterates it (none for a missing value or one that
  cannot be iterated).
\<close>

definition field :: "json \<Rightarrow> string \<Rightarrow> json option" where
  "field v key = (case v of JObj kvs \<Rightarrow> map_of kvs (lit key) | _ \<Rightarrow> None)"

definition items :: "json option \<Rightarrow> json list" where
  "items v = (case v of None \<Rightarrow> [] | Some x \<Rightarrow> (case iterate x of Inl e \<Rightarrow> [] | Inr xs \<Rightarrow> xs))"

definition first_of :: "json list \<Rightarrow> json" where
  "first_of xs = (case xs of [] \<Rightarrow> JNull | x # _ \<Rightarrow> x)"

text \<open>
  The first entry of the result list; its reading and its surface form (the reading when
  the form has no \<open>word\<close>), both taken from the first item of \<open>japanese\<close>; and its
  definitions: the English definition lists of the first three sense groups, flattened,
  cut to three.
\<close>

definition first_entry :: "json \<Rightarrow> json" where
  "first_entry data = first_of (items (field data ''data''))"

definition reading_of :: "json \<Rightarrow> json" where
  "reading_of entry =
     (case field (first_of (items (field entry ''japanese''))) ''reading'' of
        None \<Rightarrow> JNull
      | Some v \<Rightarrow> v)"

definition surface_of :: "json \<Rightarrow> json" where
  "surface_of entry =
     (case field (first_of (items (field entry ''japanese''))) ''word'' of
        None \<Rightarrow> reading_of entry
      | Some v \<Rightarrow> v)"

definition definitions_of :: "json \<Rightarrow> json list" where
  "definitions_of entry =
     take 3 (concat (map (\<lambda>sense. items (field sense ''english_definitions''))
                      (take 3 (items (field entry ''senses'')))))"

text \<open>The result list of a response body (\<open>None\<close> when the body is not JSON or has no \<open>data\<close>).\<close>

definition result_list :: "json option \<Rightarrow> json option" where
  "result_list body = (case body of None \<Rightarrow> None | Some data \<Rightarrow> field data ''data'')"

definition entry_of :: "json option \<Rightarrow> json" where
  "entry_of body = (case body of None \<Rightarrow> JNull | Some data \<Rightarrow> first_entry data)"

text \<open>
  The lookup as section 4.1 of the specification describes it, for a response that came
  back with a status and a body.
\<close>

definition spec_lookup :: "int \<Rightarrow> json option \<Rightarrow> lookup option" where
  "spec_lookup status body =
     (if status \<noteq> 200 then None
      else case result_list body of
        None \<Rightarrow> None
      | Some results \<Rightarrow>
          if \<not> truthy results then None
          else (let entry = entry_of body in
                if truthy (reading_of entry) \<and> truthy (surface_of entry)
                   \<and> definitions_of entry \<noteq> []
                then Some (surface_of entry, reading_of entry, definitions_of entry)
                else None))"

text \<open>
  The responses on which the lookup is said to be total: the body is JSON with a \<open>data\<close>
  key and, when the result list is non-empty, its first entry has a non-empty \<open>japanese\<close>
  list and each of the sense groups in \<open>examined\<close> has an \<open>english_definitions\<close> key.
  \<open>claimed_shape\<close> asks this of every sense group, \<open>examined_shape\<close> of the first three.
\<close>

definition has_key :: "json \<Rightarrow> string \<Rightarrow> bool" where
  "has_key v key \<longleftrightarrow> field v key \<noteq> None"

definition nonempty_list :: "json option \<Rightarrow> bool" where
  "nonempty_list v = (case v of Some (JArr (x # xs)) \<Rightarrow> True | _ \<Rightarrow> False)"

definition shape_where :: "(json list \<Rightarrow> json list) \<Rightarrow> json option \<Rightarrow> bool" where
  "shape_where examined body =
     (case result_list body of
        None \<Rightarrow> False
      | Some results \<Rightarrow>
          \<not> truthy results \<or>
          (nonempty_list (Some results)
           \<and> nonempty_list (field (entry_of body) ''japanese'')
           \<and> list_all (\<lambda>sense. has_key sense ''english_definitions'')
                (examined (items (field (entry_of body) ''senses'')))))"

definition claimed_shape :: "json option \<Rightarrow> bool" where
  "claimed_shape body = shape_where (\<lambda>senses. senses) body"

definition examined_shape :: "json option \<Rightarrow> bool" where
  "examined_shape body = shape_where (take 3) body"

text \<open>
  The responses from which every field the lookup reads can be read: the body is JSON
  with a \<open>data\<close> key and, unless the result list counts as false, that list starts with an
  entry whose \<open>japanese\<close> is a list starting with an object and whose \<open>senses\<close> is a list,
  each of its first three sense groups having \<open>english_definitions\<close> that can be iterated.
\<close>

definition lists_definitions :: "json \<Rightarrow> bool" where
  "lists_definitions v =
     (case field v ''english_definitions'' of
        None \<Rightarrow> False
      | Some ds \<Rightarrow> (case iterate ds of Inl e \<Rightarrow> False | Inr xs \<Rightarrow> True))"

definition extractable :: "json option \<Rightarrow> bool" where
  "extractable body =
     (case result_list body of
        None \<Rightarrow> False
      | Some results \<Rightarrow>
          \<not> truthy results \<or>
          (case results of
             JArr (entry # entries) \<Rightarrow>
               (case field entry ''japanese'' of
                  Some (JArr (JObj form # forms)) \<Rightarrow>
                    (case field entry ''senses'' of
                       Some (JArr senses) \<Rightarrow> list_all lists_definitions (take 3 senses)
                     | _ \<Rightarrow> False)
                | _ \<Rightarrow> False)
           | _ \<Rightarrow> False))"

subsection \<open>Found and not found\<close>

text \<open>
  A word is found when its lookup returns a triple, not found when it returns \<open>None\<close>
  (a lookup that raises is neither).  \<open>record_of\<close> is the line a found word adds to the
  output.
\<close>

definition found :: "(pystr \<Rightarrow> http_outcome) \<Rightarrow> pystr \<Rightarrow> bool" where
  "found web word = (case get_definitions web word of Inr (Some result) \<Rightarrow> True | _ \<Rightarrow> False)"

definition not_found :: "(pystr \<Rightarrow> http_outcome) \<Rightarrow> pystr \<Rightarrow> bool" where
  "not_found web word \<longleftrightarrow> get_definitions web word = Inr None"

definition record_of :: "(pystr \<Rightarrow> http_outcome) \<Rightarrow> (json \<Rightarrow> pystr) \<Rightarrow> pystr \<Rightarrow> pystr" where
  "record_of web py_str word =
     (case get_definitions web word of
        Inr (Some result) \<Rightarrow> (case output_record py_str result of Inr line \<Rightarrow> line | Inl e \<Rightarrow> [])
      | _ \<Rightarrow> [])"

subsection \<open>Progress reports\<close>

text \<open>Every progress fraction among the callbacks lies between 0 and 1.\<close>

definition reports_ok :: "event list \<Rightarrow> bool" where
  "reports_ok es \<longleftrightarrow> (\<forall>p. Progress p \<in> set es \<longrightarrow> 0 \<le> p \<and> p \<le> 1)"

subsection \<open>Example responses\<close>

text \<open>
  A dictionary that knows one word, U+72AC (dog, read U+3044 U+306C), and answers 404 to
  every other request; and a response whose entry has four sense groups, the fourth
  without \<open>english_definitions\<close>.
\<close>

definition dog_entry :: json where
  "dog_entry =
     JObj [(lit ''slug'', JStr [29356]),
           (lit ''japanese'',
              JArr [JObj [(lit ''word'', JStr [29356]), (lit ''reading'', JStr [12356, 12396])]]),
           (lit ''senses'',
              JArr [JObj [(lit ''english_definitions'', JArr [JStr (lit ''dog'')])]])]"

definition dog_body :: json where
  "dog_body = JObj [(lit ''data'', JArr [dog_entry])]"

definition dictionary :: "pystr \<Rightarrow> http_outcome" where
  "dictionary url =
     (if url = search_url [29356] then Response 200 (Some dog_body) else Response 404 None)"

definition sense :: "string \<Rightarrow> json" where
  "sense d = JObj [(lit ''english_definitions'', JArr [JStr (lit d)])]"

definition four_senses :: json where
  "four_senses =
     JObj [(lit ''data'',
        JArr [JObj [(lit ''japanese'', JArr [JObj [(lit ''reading'', JStr [12397, 12371])]]),
                    (lit ''senses'',
                       JArr [sense ''cat'', sense ''kitty'', sense ''puss'',
                             JObj [(lit ''parts_of_speech'', JArr [])]])]])]"

text \<open>
  More responses: an entry for U+732B (cat) that comes first of two, whose first form has
  a reading and no \<open>word\<close>, with four sense groups and five definitions in the first
  three; an entry for U+9CE5 (bird) whose third sense group is empty; an entry with no
  reading; an entry with an empty \<open>japanese\<close> list; an entry with no \<open>senses\<close>; and a
  dictionary \<open>library\<close> that serves the first three and an empty result list otherwise.
\<close>

definition sense_group :: "string list \<Rightarrow> json" where
  "sense_group ds =
     JObj [(lit ''parts_of_speech'', JArr [JStr (lit ''Noun'')]),
           (lit ''english_definitions'', JArr (map (\<lambda>d. JStr (lit d)) ds))]"

definition cat_entry :: json where
  "cat_entry =
     JObj [(lit ''japanese'',
              JArr [JObj [(lit ''reading'', JStr [12397, 12371])],
                    JObj [(lit ''word'', JStr [29483]), (lit ''reading'', JStr [12397, 12371])]]),
           (lit ''senses'',
              JArr [sense_group [''cat'', ''kitty''], sense_group [''puss''],
                    sense_group [''feline'', ''moggy''], sense_group [''tabby'']])]"

definition cat_body :: json where
  "cat_body = JObj [(lit ''data'', JArr [cat_entry, dog_entry])]"

definition bird_entry :: json where
  "bird_entry =
     JObj [(lit ''japanese'',
              JArr [JObj [(lit ''word'', JStr [40165]), (lit ''reading'', JStr [12392, 12426])]]),
           (lit ''senses'',
              JArr [sense_group [''bird''], sense_group [''fowl''], sense_group [],
                    sense_group [''chicken'']])]"

definition bird_body :: json where
  "bird_body = JObj [(lit ''data'', JArr [bird_entry])]"

definition unread_body :: json where
  "unread_body =
     JObj [(lit ''data'',
        JArr [JObj [(lit ''japanese'', JArr [JObj [(lit ''word'', JStr [29356])]]),
                    (lit ''senses'', JArr [sense_group [''dog'']])]])]"

definition no_forms :: json where
  "no_forms =
     JObj [(lit ''data'',
        JArr [JObj [(lit ''japanese'', JArr []),
                    (lit ''senses'', JArr [sense_group [''dog'']])]])]"

definition no_senses :: json where
  "no_senses =
     JObj [(lit ''data'',
        JArr [JObj [(lit ''japanese'',
                       JArr [JObj [(lit ''word'', JStr [29356]),
                                   (lit ''reading'', JStr [12356, 12396])]])]])]"

definition library :: "pystr \<Rightarrow> http_outcome" where
  "library url =
     (if url = search_url [29483] then Response 200 (Some cat_body)
      else if url = search_url [40165] then Response 200 (Some bird_body)
      else if url = search_url [29356] then Response 200 (Some unread_body)
      else Response 200 (Some (JObj [(lit ''data'', JArr [])])))"

text \<open>
  An input file \<open>words.txt\<close> with the one line U+72AC, comma, space, U+732B, newline (two
  words, separated by a comma and a space) and an empty file \<open>empty.txt\<close>, in a file system
  where every file can be written; and a network on which every request fails.
\<close>

definition word_list :: pystr where
  "word_list = [29356, 44, 32, 29483, 10]"

definition example_files :: filesystem where
  "example_files =
     \<lparr>readable = (\<lambda>path. if path = lit ''words.txt'' then Some word_list
                         else if path = lit ''empty.txt'' then Some []
                         else None),
      writable = (\<lambda>path. True)\<rparr>"

definition no_connection :: "pystr \<Rightarrow> http_outcome" where
  "no_connection url = RequestFailed"

text \<open>A network that answers 404 to the request for U+72AC and then is lost.\<close>

definition lost_connection :: "pystr \<Rightarrow> http_outcome" where
  "lost_connection url = (if url = search_url [29356] then Response 404 None else RequestFailed)"

section \<open>Tokenisation: the source against the specification\<close>

lemma split_where_replace:
  "split_where (\<lambda>c. c = new) (py_replace old new s) = split_where (\<lambda>c. c = new \<or> c = old) s"
  by (induction s) (auto simp: py_replace_def)

lemma split_where_cong_pred:
  "(\<And>c. p c = q c) \<Longrightarrow> split_where p s = split_where q s"
  by (induction s) auto

lemma py_split_replace_replace:
  "py_split comma (py_replace space comma (py_replace japanese_comma comma line))
     = split_where is_separator line"
proof -
  have "py_split comma (py_replace space comma (py_replace japanese_comma comma line))
          = split_where (\<lambda>c. c = comma \<or> c = space) (py_replace japanese_comma comma line)"
    by (simp add: py_split_def split_where_replace)
  also have "\<dots> = split_where (\<lambda>c. (c = comma \<or> c = space) \<or> c = japanese_comma) line"
    by (induction line) (auto simp: py_replace_def comma_def space_def japanese_comma_def)
  also have "\<dots> = split_where is_separator line"
    by (rule split_where_cong_pred) (auto simp: is_separator_def)
  finally show ?thesis .
qed

lemma comprehension_filter_map:
  "[f x. x \<leftarrow> xs, f x \<noteq> []] = filter (\<lambda>w. w \<noteq> []) (map f xs)"
  by (induction xs) auto

text \<open>
  C7.  For every input line the tokens the main pass processes are the pieces of the line
  between commas, Japanese commas and spaces, each trimmed of whitespace, the empty ones
  discarded; and the line U+72AC U+3001 U+732B U+0020 U+9CE5 (dog, Japanese comma, cat,
  space, bird) yields exactly the three one-character tokens, in that order.
\<close>

theorem words_of_line_tokens:
  "words_of_line line = spec_tokens line
   \<and> words_of_line [29356, 12289, 29483, 32, 40165] = [[29356], [29483], [40165]]"
proof
  show "words_of_line line = spec_tokens line"
    unfolding words_of_line_def spec_tokens_def py_split_replace_replace
    by (rule comprehension_filter_map)
next
  show "words_of_line [29356, 12289, 29483, 32, 40165] = [[29356], [29483], [40165]]"
    by (simp add: words_of_line_def py_split_def py_replace_def py_strip_def is_space_def
        comma_def space_def japanese_comma_def)
qed

section \<open>The first pass counts at least the tokens of the main pass\<close>

lemma py_strip_empty_iff: "py_strip w = [] \<longleftrightarrow> (\<forall>c\<in>set w. is_space c)"
proof -
  have "py_strip w = [] \<longleftrightarrow> dropWhile is_space w = []"
    unfolding py_strip_def
    by (metis dropWhile_eq_Nil_conv dropWhile.simps(1) hd_dropWhile rev_is_Nil_conv
        set_rev last_rev last_in_set dropWhile_eq_Nil_conv)
  then show ?thesis by (simp add: dropWhile_eq_Nil_conv)
qed

lemma split_where_nonempty: "split_where p s \<noteq> []"
  by (induction s) (auto split: list.splits)

lemma split_where_append:
  "split_where p (xs @ ys) =
     butlast (split_where p xs) @ [last (split_where p xs) @ hd (split_where p ys)]
       @ tl (split_where p ys)"
proof (induction xs)
  case Nil
  then show ?case using split_where_nonempty[of p ys] by (cases "split_where p ys") auto
next
  case (Cons c cs)
  then show ?case
    using split_where_nonempty[of p cs] split_where_nonempty[of p "cs @ ys"]
    by (auto split: list.splits)
qed


lemma split_where_pieces:
  "w \<in> set (split_where p s) \<Longrightarrow> c \<in> set w \<Longrightarrow> c \<in> set s \<and> \<not> p c"
proof (induction s arbitrary: w)
  case Nil
  then show ?case by simp
next
  case (Cons d ds)
  show ?case
  proof (cases "p d")
    case True
    with Cons show ?thesis by auto
  next
    case False
    obtain piece pieces where sp: "split_where p ds = piece # pieces"
      using split_where_nonempty[of p ds] by (cases "split_where p ds") auto
    with False Cons.prems have "w = d # piece \<or> w \<in> set pieces" by simp
    then show ?thesis
    proof
      assume "w = d # piece"
      with Cons.prems(2) have "c = d \<or> c \<in> set piece" by simp
      then show ?thesis using False Cons.IH[of piece] sp by auto
    next
      assume "w \<in> set pieces"
      then show ?thesis using Cons.IH[of w] Cons.prems(2) sp by auto
    qed
  qed
qed

lemma blank_pieces:
  assumes "\<forall>c\<in>set b. is_space c \<or> p c" and "w \<in> set (split_where p b)"
  shows "\<not> nonblank w"
  using assms split_where_pieces[of w p b] by (auto simp: nonblank_def)

lemma filter_butlast_last:
  "xs \<noteq> [] \<Longrightarrow> length (filter q (butlast xs)) + (if q (last xs) then 1 else 0) = length (filter q xs)"
  by (induction xs) auto

lemma filter_hd_tl:
  "xs \<noteq> [] \<Longrightarrow> (if q (hd xs) then 1 else 0) + length (filter q (tl xs)) = length (filter q xs)"
  by (cases xs) auto

lemma nonblank_append: "nonblank (u @ v) \<longleftrightarrow> nonblank u \<or> nonblank v"
  by (auto simp: nonblank_def)

lemma count_append_right:
  assumes "\<forall>c\<in>set b. is_space c \<or> p c"
  shows "length (filter nonblank (split_where p (x @ b))) = length (filter nonblank (split_where p x))"
proof -
  have hd_blank: "\<not> nonblank (hd (split_where p b))"
    using blank_pieces[OF assms] split_where_nonempty[of p b] by (simp add: hd_in_set)
  have tl_blank: "filter nonblank (tl (split_where p b)) = []"
    using blank_pieces[OF assms] split_where_nonempty[of p b]
    by (auto simp: filter_empty_conv dest: list.set_sel(2))
  show ?thesis
    using filter_butlast_last[OF split_where_nonempty, of nonblank p x] hd_blank tl_blank
    by (auto simp: split_where_append nonblank_append split: if_splits)
qed

lemma count_append_left:
  assumes "\<forall>c\<in>set a. is_space c \<or> p c"
  shows "length (filter nonblank (split_where p (a @ x))) = length (filter nonblank (split_where p x))"
proof -
  have last_blank: "\<not> nonblank (last (split_where p a))"
    using blank_pieces[OF assms] split_where_nonempty[of p a] by (simp add: last_in_set)
  have butlast_blank: "filter nonblank (butlast (split_where p a)) = []"
    using blank_pieces[OF assms] by (auto simp: filter_empty_conv dest: in_set_butlastD)
  show ?thesis
    using filter_hd_tl[OF split_where_nonempty, of nonblank p x] last_blank butlast_blank
    by (auto simp: split_where_append nonblank_append split: if_splits)
qed


lemma py_strip_decompose:
  "\<exists>a b. s = a @ py_strip s @ b \<and> (\<forall>c\<in>set a. is_space c) \<and> (\<forall>c\<in>set b. is_space c)"
proof -
  define a where "a = takeWhile is_space s"
  define y where "y = dropWhile is_space s"
  define b where "b = rev (takeWhile is_space (rev y))"
  have "rev y = takeWhile is_space (rev y) @ dropWhile is_space (rev y)" by simp
  then have "y = rev (dropWhile is_space (rev y)) @ b"
    unfolding b_def by (metis rev_append rev_rev_ident)
  then have "s = a @ py_strip s @ b"
    unfolding a_def y_def py_strip_def by (metis takeWhile_dropWhile_id)
  moreover have "\<forall>c\<in>set a. is_space c"
    unfolding a_def by (auto dest: set_takeWhileD)
  moreover have "\<forall>c\<in>set b. is_space c"
    unfolding b_def by (auto dest: set_takeWhileD)
  ultimately show ?thesis by blast
qed

lemma nonblank_iff_strip: "nonblank w \<longleftrightarrow> py_strip w \<noteq> []"
  by (auto simp: nonblank_def py_strip_empty_iff)

lemma length_words_of_line:
  "length (words_of_line line)
     = length (filter nonblank
         (split_where (\<lambda>c. c = comma) (py_replace space comma (py_replace japanese_comma comma line))))"
proof -
  have "nonblank = (\<lambda>w. py_strip w \<noteq> [])"
    by (rule ext) (rule nonblank_iff_strip)
  then show ?thesis
    by (simp add: words_of_line_def comprehension_filter_map py_split_def filter_map comp_def)
qed

lemma words_le_count_line: "length (words_of_line line) \<le> count_line line"
proof -
  define l where "l = py_replace japanese_comma comma line"
  obtain a b where dec: "l = a @ py_strip l @ b"
    and a: "\<forall>c\<in>set a. is_space c" and b: "\<forall>c\<in>set b. is_space c"
    using py_strip_decompose[of l] by blast
  let ?r = "py_replace space comma"
  let ?p = "\<lambda>c. c = comma"
  have a': "\<forall>c\<in>set (?r a). is_space c \<or> ?p c"
    using a by (auto simp: py_replace_def)
  have b': "\<forall>c\<in>set (?r b). is_space c \<or> ?p c"
    using b by (auto simp: py_replace_def)
  have "?r l = ?r a @ (?r (py_strip l) @ ?r b)"
    by (subst dec) (simp add: py_replace_def)
  then have "length (filter nonblank (split_where ?p (?r l)))
               = length (filter nonblank (split_where ?p (?r (py_strip l))))"
    using count_append_left[OF a', of "?r (py_strip l) @ ?r b"]
      count_append_right[OF b', of "?r (py_strip l)"] by simp
  also have "\<dots> \<le> length (split_where ?p (?r (py_strip l)))"
    by (rule length_filter_le)
  finally show ?thesis
    by (simp add: length_words_of_line count_line_def py_split_def l_def)
qed

lemma tokens_le_counts:
  "length (concat (map words_of_line ls)) \<le> sum_list (map count_line ls)"
proof (induction ls)
  case Nil
  then show ?case by simp
next
  case (Cons l ls)
  then show ?case using words_le_count_line[of l] by simp
qed

lemma tokens_le_first_pass:
  "length (concat (map words_of_line (file_lines t))) \<le> first_pass t"
  unfolding first_pass_def by (rule tokens_le_counts)

section \<open>What the lookup returns\<close>

lemma search_url_eq [simp]: "search_url a = search_url b \<longleftrightarrow> a = b"
  by (simp add: search_url_def)

lemma lit_eq [simp]: "lit a = lit b \<longleftrightarrow> a = b"
proof -
  have "inj (of_char :: char \<Rightarrow> nat)"
    by (rule injI) simp
  then show ?thesis
    by (simp add: lit_def inj_map_eq_map)
qed

lemma and_then_simps [simp]:
  "and_then (Inl e) f = Inl e"
  "and_then (Inr x) f = f x"
  by (simp_all add: and_then_def)

lemma and_then_Inr: "and_then m f = Inr y \<longleftrightarrow> (\<exists>x. m = Inr x \<and> f x = Inr y)"
  by (cases m) auto

lemma subscript_Inr: "subscript v (lit key) = Inr x \<longleftrightarrow> field v key = Some x"
  by (cases v) (auto simp: field_def split: option.splits)

lemma first_item_Inr:
  "first_item v = Inr x \<Longrightarrow> (\<exists>kvs. x = JObj kvs) \<Longrightarrow> (\<exists>xs. v = JArr (x # xs))"
  by (cases v rule: first_item.cases) auto

lemma py_get_Inr:
  "py_get v (lit key) d = Inr x \<longleftrightarrow>
     (\<exists>kvs. v = JObj kvs) \<and> x = (case field v key of None \<Rightarrow> d | Some y \<Rightarrow> y)"
  by (cases v) (auto simp: field_def)

lemma map_py_subscript:
  "map_py (\<lambda>s. subscript s (lit key)) xs = Inr ys \<Longrightarrow>
     (\<forall>s\<in>set xs. field s key \<noteq> None) \<and> map Some ys = map (\<lambda>s. field s key) xs"
  by (induction xs arbitrary: ys) (auto simp: and_then_Inr subscript_Inr)

lemma map_py_iterate:
  "map_py iterate ds = Inr ys \<Longrightarrow> ys = map (\<lambda>d. items (Some d)) ds"
  by (induction ds arbitrary: ys) (auto simp: and_then_Inr items_def)

lemma slice3_iterate:
  "slice3 v = Inr w \<Longrightarrow> iterate w = Inr xs \<Longrightarrow> xs = take 3 (items (Some v))"
  by (cases v) (auto simp: items_def take_map)


lemma first_item_object:
  "first_item v = Inr x \<Longrightarrow> field x key = Some y \<Longrightarrow> \<exists>xs. v = JArr (x # xs)"
  by (rule first_item_Inr) (cases x; simp add: field_def)+

text \<open>
  What a lookup that reaches the extraction and returns has met on its way: either a result
  list that counts as false, or the values the statements of \<open>get_definitions\<close> bind.
\<close>

lemma get_definitions_chain:
  assumes "web (search_url word) = Response 200 body"
    and "get_definitions web word = Inr res"
  obtains (no_results) results where
      "result_list body = Some results" and "\<not> truthy results" and "res = None"
  | (first_entry) entry entries form forms senses reading japanese_word flattened where
      "result_list body = Some (JArr (entry # entries))"
      and "field entry ''japanese'' = Some (JArr (form # forms))"
      and "field entry ''senses'' = Some senses"
      and "\<forall>s\<in>set (take 3 (items (Some senses))). field s ''english_definitions'' \<noteq> None"
      and "reading = (case field form ''reading'' of None \<Rightarrow> JNull | Some v \<Rightarrow> v)"
      and "japanese_word = (case field form ''word'' of None \<Rightarrow> reading | Some v \<Rightarrow> v)"
      and "flattened = take 3 (concat (map (\<lambda>s. items (field s ''english_definitions''))
                                      (take 3 (items (Some senses)))))"
      and "res = (if truthy reading \<and> truthy japanese_word \<and> flattened \<noteq> []
                  then Some (japanese_word, reading, flattened) else None)"
proof -
  from assms obtain data results where
    body: "body = Some data" and results: "field data ''data'' = Some results"
    by (auto simp: get_definitions_def and_then_Inr response_json_def subscript_Inr
        split: option.splits)
  show thesis
  proof (cases "truthy results")
    case False
    with assms body results have "res = None"
      by (auto simp: get_definitions_def response_json_def and_then_Inr subscript_Inr)
    with False body results show thesis
      by (intro no_results[of results]) (simp_all add: result_list_def)
  next
    case truthy: True
    from assms body results truthy have
      "\<exists>entry japanese form reading japanese_word senses first_senses sense_list definitions
          sublists.
         first_item results = Inr entry
         \<and> field entry ''japanese'' = Some japanese
         \<and> first_item japanese = Inr form
         \<and> py_get form (lit ''reading'') JNull = Inr reading
         \<and> py_get form (lit ''word'') reading = Inr japanese_word
         \<and> field entry ''senses'' = Some senses
         \<and> slice3 senses = Inr first_senses
         \<and> iterate first_senses = Inr sense_list
         \<and> map_py (\<lambda>s. subscript s (lit ''english_definitions'')) sense_list = Inr definitions
         \<and> map_py iterate definitions = Inr sublists
         \<and> res = (if truthy entry \<and> truthy reading \<and> truthy japanese_word
                          \<and> take 3 (concat sublists) \<noteq> []
                     then Some (japanese_word, reading, take 3 (concat sublists)) else None)"
      by (auto simp: get_definitions_def response_json_def and_then_Inr subscript_Inr Let_def
          split: if_splits)
    then obtain entry japanese form reading japanese_word
      senses first_senses sense_list definitions sublists where
      entry: "first_item results = Inr entry"
      and japanese: "field entry ''japanese'' = Some japanese"
      and form: "first_item japanese = Inr form"
      and reading: "py_get form (lit ''reading'') JNull = Inr reading"
      and japanese_word: "py_get form (lit ''word'') reading = Inr japanese_word"
      and senses: "field entry ''senses'' = Some senses"
      and first_senses: "slice3 senses = Inr first_senses"
      and sense_list: "iterate first_senses = Inr sense_list"
      and definitions:
        "map_py (\<lambda>s. subscript s (lit ''english_definitions'')) sense_list = Inr definitions"
      and sublists: "map_py iterate definitions = Inr sublists"
      and res: "res = (if truthy entry \<and> truthy reading \<and> truthy japanese_word
                          \<and> take 3 (concat sublists) \<noteq> []
                       then Some (japanese_word, reading, take 3 (concat sublists)) else None)"
      by blast
    from entry japanese obtain entries where results_arr: "results = JArr (entry # entries)"
      using first_item_object by blast
    from reading obtain kvs where form_obj: "form = JObj kvs"
      by (auto simp: py_get_Inr)
    with form obtain forms where japanese_arr: "japanese = JArr (form # forms)"
      using first_item_Inr by blast
    have sl: "sense_list = take 3 (items (Some senses))"
      using first_senses sense_list by (rule slice3_iterate)
    have keys: "\<forall>s\<in>set (take 3 (items (Some senses))). field s ''english_definitions'' \<noteq> None"
      using map_py_subscript[OF definitions] sl by simp
    have "map Some definitions = map (\<lambda>s. field s ''english_definitions'') sense_list"
      using map_py_subscript[OF definitions] by simp
    then have "map (\<lambda>d. items (Some d)) definitions
                 = map (\<lambda>s. items (field s ''english_definitions'')) sense_list"
      by (induction definitions arbitrary: sense_list) auto
    then have flat: "take 3 (concat sublists)
                 = take 3 (concat (map (\<lambda>s. items (field s ''english_definitions''))
                                    (take 3 (items (Some senses)))))"
      using map_py_iterate[OF sublists] sl by simp
    have r: "reading = (case field form ''reading'' of None \<Rightarrow> JNull | Some v \<Rightarrow> v)"
      using reading by (simp add: py_get_Inr)
    have w: "japanese_word = (case field form ''word'' of None \<Rightarrow> reading | Some v \<Rightarrow> v)"
      using japanese_word by (simp add: py_get_Inr)
    have te: "truthy entry"
      using japanese by (cases entry) (auto simp: field_def)
    have res': "res = (if truthy reading \<and> truthy japanese_word \<and> take 3 (concat sublists) \<noteq> []
                       then Some (japanese_word, reading, take 3 (concat sublists)) else None)"
      using res te by simp
    show thesis
    proof (rule first_entry[of entry entries form forms senses reading japanese_word
          "take 3 (concat sublists)"])
      show "result_list body = Some (JArr (entry # entries))"
        using body results results_arr by (simp add: result_list_def)
      show "field entry ''japanese'' = Some (JArr (form # forms))"
        using japanese japanese_arr by simp
    qed (use senses keys r w flat res' in blast)+
  qed
qed

lemma entry_of_first:
  "result_list body = Some (JArr (entry # entries)) \<Longrightarrow> entry_of body = entry"
  by (auto simp: result_list_def entry_of_def first_entry_def first_of_def items_def
      split: option.splits)

lemma first_form:
  "field entry ''japanese'' = Some (JArr (form # forms))
     \<Longrightarrow> first_of (items (field entry ''japanese'')) = form"
  by (simp add: first_of_def items_def)

text \<open>Whenever the lookup returns, it returns what the specification describes.\<close>

lemma get_definitions_returns:
  assumes "web (search_url word) = Response status body"
    and "get_definitions web word = Inr res"
  shows "res = spec_lookup status body"
proof (cases "status = 200")
  case False
  with assms show ?thesis by (simp add: get_definitions_def spec_lookup_def)
next
  case True
  with assms have web: "web (search_url word) = Response 200 body" by simp
  from web assms(2) show ?thesis
  proof (cases rule: get_definitions_chain)
    case (no_results results)
    with True show ?thesis by (simp add: spec_lookup_def)
  next
    case (first_entry entry entries form forms senses reading japanese_word flattened)
    have e: "entry_of body = entry"
      using first_entry(1) by (rule entry_of_first)
    have r: "reading_of entry = reading"
      using first_entry(5) first_form[OF first_entry(2)] by (simp add: reading_of_def)
    have w: "surface_of entry = japanese_word"
      using first_entry(6) first_form[OF first_entry(2)] r
      by (simp add: surface_of_def split: option.splits)
    have d: "definitions_of entry = flattened"
      using first_entry(3,7) by (simp add: definitions_of_def)
    show ?thesis
      using True first_entry(1,8) e r w d by (simp add: spec_lookup_def)
  qed
qed

lemma get_definitions_shape:
  assumes "web (search_url word) = Response 200 body"
    and "get_definitions web word = Inr res"
  shows "examined_shape body"
  using assms
proof (cases rule: get_definitions_chain)
  case (no_results results)
  then show ?thesis by (simp add: examined_shape_def shape_where_def)
next
  case (first_entry entry entries form forms senses reading japanese_word flattened)
  have "entry_of body = entry"
    using first_entry(1) by (rule entry_of_first)
  with first_entry(1-4) show ?thesis
    by (simp add: examined_shape_def shape_where_def nonempty_list_def has_key_def list_all_iff)
qed


lemma falsy_items: "\<not> truthy v \<Longrightarrow> items (Some v) = []"
  by (cases v) (auto simp: items_def)

lemma get_definitions_cases:
  assumes "web (search_url word) = Response 200 body"
    and "get_definitions web word = Inr res"
  obtains (no_results) "items (result_list body) = []" and "res = None"
  | (first_entry) entry entries form forms where
      "items (result_list body) = entry # entries"
      and "entry_of body = entry"
      and "items (field entry ''japanese'') = form # forms"
      and "reading_of entry = (case field form ''reading'' of None \<Rightarrow> JNull | Some v \<Rightarrow> v)"
      and "surface_of entry = (case field form ''word'' of None \<Rightarrow> reading_of entry | Some v \<Rightarrow> v)"
      and "res = (if truthy (reading_of entry) \<and> truthy (surface_of entry)
                     \<and> definitions_of entry \<noteq> []
                  then Some (surface_of entry, reading_of entry, definitions_of entry)
                  else None)"
  using assms
proof (cases rule: get_definitions_chain)
  case (no_results results)
  then show ?thesis
    using falsy_items[of results] by (intro that(1)) simp_all
next
  case (first_entry entry entries form forms senses reading japanese_word flattened)
  have e: "entry_of body = entry"
    using first_entry(1) by (rule entry_of_first)
  have r: "reading_of entry = reading"
    using first_entry(5) first_form[OF first_entry(2)] by (simp add: reading_of_def)
  have w: "surface_of entry = japanese_word"
    using first_entry(6) first_form[OF first_entry(2)] r
    by (simp add: surface_of_def split: option.splits)
  have d: "definitions_of entry = flattened"
    using first_entry(3,7) by (simp add: definitions_of_def)
  show ?thesis
  proof (rule that(2)[of entry entries form forms])
    show "items (result_list body) = entry # entries"
      using first_entry(1) by (simp add: items_def)
    show "items (field entry ''japanese'') = form # forms"
      using first_entry(2) by (simp add: items_def)
    show "surface_of entry = (case field form ''word'' of None \<Rightarrow> reading_of entry | Some v \<Rightarrow> v)"
      using w r first_entry(6) by (simp split: option.splits)
  qed (use e r w d first_entry in simp_all)
qed

text \<open>Every field can be read from an extractable response: the lookup returns.\<close>

lemma map_py_subscript_total:
  "\<forall>s\<in>set xs. field s key \<noteq> None \<Longrightarrow>
     map_py (\<lambda>s. subscript s (lit key)) xs = Inr (map (\<lambda>s. the (field s key)) xs)"
proof (induction xs)
  case Nil
  then show ?case by simp
next
  case (Cons x xs)
  then obtain v where "field x key = Some v" by auto
  then have "subscript x (lit key) = Inr v" by (simp add: subscript_Inr)
  with Cons \<open>field x key = Some v\<close> show ?case by simp
qed

lemma map_py_iterate_total:
  "\<forall>v\<in>set vs. \<exists>xs. iterate v = Inr xs \<Longrightarrow> \<exists>ys. map_py iterate vs = Inr ys"
proof (induction vs)
  case Nil
  then show ?case by simp
next
  case (Cons v vs)
  then obtain xs ys where "iterate v = Inr xs" "map_py iterate vs = Inr ys" by auto
  then show ?case by simp
qed

lemma lists_definitionsD:
  "lists_definitions s \<Longrightarrow>
     field s ''english_definitions'' \<noteq> None
     \<and> (\<exists>xs. iterate (the (field s ''english_definitions'')) = Inr xs)"
  by (auto simp: lists_definitions_def split: option.splits sum.splits)

lemma get_definitions_total:
  assumes "web (search_url word) = Response 200 body"
    and "extractable body"
  shows "\<exists>res. get_definitions web word = Inr res"
proof -
  from assms(2) obtain data results where
    body: "body = Some data" and results: "field data ''data'' = Some results"
    by (auto simp: extractable_def result_list_def split: option.splits)
  have sub: "subscript data (lit ''data'') = Inr results"
    using results by (simp add: subscript_Inr)
  show ?thesis
  proof (cases "truthy results")
    case False
    with assms(1) body sub show ?thesis
      by (simp add: get_definitions_def response_json_def)
  next
    case True
    with assms(2) body results obtain entry entries form forms senses where
      r: "results = JArr (entry # entries)"
      and j: "field entry ''japanese'' = Some (JArr (JObj form # forms))"
      and s: "field entry ''senses'' = Some (JArr senses)"
      and d: "list_all lists_definitions (take 3 senses)"
      by (auto simp: extractable_def result_list_def
          split: json.splits list.splits option.splits)
    have keys: "\<forall>s\<in>set (take 3 senses). field s ''english_definitions'' \<noteq> None"
      using d lists_definitionsD by (auto simp: list_all_iff)
    have "\<forall>v\<in>set (map (\<lambda>s. the (field s ''english_definitions'')) (take 3 senses)).
            \<exists>xs. iterate v = Inr xs"
      using d lists_definitionsD by (auto simp: list_all_iff)
    then obtain sublists where
      it: "map_py iterate (map (\<lambda>s. the (field s ''english_definitions'')) (take 3 senses))
             = Inr sublists"
      using map_py_iterate_total by blast
    have sj: "subscript entry (lit ''japanese'') = Inr (JArr (JObj form # forms))"
      using j by (simp add: subscript_Inr)
    have ss: "subscript entry (lit ''senses'') = Inr (JArr senses)"
      using s by (simp add: subscript_Inr)
    show ?thesis
      using assms(1) body sub True r sj ss it
      by (simp add: get_definitions_def response_json_def map_py_subscript_total[OF keys]
          Let_def)
  qed
qed

lemma get_definitions_extracts:
  assumes "web (search_url word) = Response 200 body"
    and "extractable body"
  shows "get_definitions web word = Inr (spec_lookup 200 body)"
proof -
  obtain res where res: "get_definitions web word = Inr res"
    using get_definitions_total[of web word body] assms by blast
  then have "res = spec_lookup 200 body"
    using get_definitions_returns[of web word 200 body res] assms(1) by blast
  with res show ?thesis by simp
qed

lemmas example_defs =
  cat_body_def cat_entry_def bird_body_def bird_entry_def unread_body_def no_forms_def
  no_senses_def sense_group_def dog_body_def dog_entry_def

lemmas accessor_defs =
  result_list_def entry_of_def first_entry_def first_of_def items_def field_def
  reading_of_def surface_of_def definitions_of_def

lemma library_lookups:
  "get_definitions library [29483]
     = Inr (Some (JStr [12397, 12371], JStr [12397, 12371],
                  [JStr (lit ''cat''), JStr (lit ''kitty''), JStr (lit ''puss'')]))"
  "get_definitions library [40165]
     = Inr (Some (JStr [40165], JStr [12392, 12426], [JStr (lit ''bird''), JStr (lit ''fowl'')]))"
  "get_definitions library [29356] = Inr None"
  "get_definitions library [12397] = Inr None"
  by (simp_all add: library_def get_definitions_def response_json_def example_defs)

lemma library_extractable:
  "extractable (Some cat_body)" "extractable (Some bird_body)" "extractable (Some unread_body)"
  "extractable (Some (JObj [(lit ''data'', JArr [])]))"
  by (simp_all add: extractable_def lists_definitions_def example_defs accessor_defs)




lemma get_definitions_Some_response:
  assumes "get_definitions web word = Inr (Some result)"
  obtains body where "web (search_url word) = Response 200 body"
proof (cases "web (search_url word)")
  case RequestFailed
  with assms show ?thesis by (simp add: get_definitions_def)
next
  case (Response status body)
  with assms have "status = 200"
    by (auto simp: get_definitions_def split: if_splits)
  with Response that show ?thesis by simp
qed

text \<open>
  C6.  A lookup that returns a triple had a response with status 200 and a non-empty
  result list, and the triple is read from the first entry of that list and the first
  item of its \<open>japanese\<close> list: the reading is that item's \<open>reading\<close>, the surface form is
  its \<open>word\<close>, or the reading when the item has no \<open>word\<close>, and the definitions are the
  \<open>english_definitions\<close> of the first three sense groups, flattened and cut to the first
  three.  Conversely, on every status-200 response from which the fields can be read, the
  lookup returns exactly that triple whenever its three parts are non-empty.
\<close>

theorem get_definitions_first_entry:
  "(get_definitions web word = Inr (Some (japanese_word, reading, definitions)) \<longrightarrow>
      (\<exists>body entry entries form forms.
           web (search_url word) = Response 200 body
           \<and> items (result_list body) = entry # entries
           \<and> items (field entry ''japanese'') = form # forms
           \<and> reading = (case field form ''reading'' of None \<Rightarrow> JNull | Some v \<Rightarrow> v)
           \<and> japanese_word = (case field form ''word'' of None \<Rightarrow> reading | Some v \<Rightarrow> v)
           \<and> definitions =
               take 3 (concat (map (\<lambda>sense. items (field sense ''english_definitions''))
                               (take 3 (items (field entry ''senses'')))))))
   \<and> (web (search_url word) = Response 200 body \<and> extractable body
        \<and> items (result_list body) = entry # entries
        \<and> items (field entry ''japanese'') = form # forms
        \<and> r = (case field form ''reading'' of None \<Rightarrow> JNull | Some v \<Rightarrow> v)
        \<and> w = (case field form ''word'' of None \<Rightarrow> r | Some v \<Rightarrow> v)
        \<and> ds = take 3 (concat (map (\<lambda>sense. items (field sense ''english_definitions''))
                                 (take 3 (items (field entry ''senses'')))))
        \<and> truthy r \<and> truthy w \<and> ds \<noteq> []
      \<longrightarrow> get_definitions web word = Inr (Some (w, r, ds)))"
proof (intro conjI impI)
  assume a: "get_definitions web word = Inr (Some (japanese_word, reading, definitions))"
  then obtain body where web: "web (search_url word) = Response 200 body"
    by (rule get_definitions_Some_response)
  from web a show "\<exists>body entry entries form forms.
           web (search_url word) = Response 200 body
           \<and> items (result_list body) = entry # entries
           \<and> items (field entry ''japanese'') = form # forms
           \<and> reading = (case field form ''reading'' of None \<Rightarrow> JNull | Some v \<Rightarrow> v)
           \<and> japanese_word = (case field form ''word'' of None \<Rightarrow> reading | Some v \<Rightarrow> v)
           \<and> definitions =
               take 3 (concat (map (\<lambda>sense. items (field sense ''english_definitions''))
                               (take 3 (items (field entry ''senses'')))))"
  proof (cases rule: get_definitions_cases)
    case no_results
    then show ?thesis by simp
  next
    case (first_entry entry entries form forms)
    from first_entry(6) have
      "japanese_word = surface_of entry" "reading = reading_of entry"
      "definitions = definitions_of entry"
      by (simp_all split: if_splits)
    with web first_entry(1,3,4,5) show ?thesis
      by (auto simp: definitions_of_def split: option.splits)
  qed
next
  assume a: "web (search_url word) = Response 200 body \<and> extractable body
        \<and> items (result_list body) = entry # entries
        \<and> items (field entry ''japanese'') = form # forms
        \<and> r = (case field form ''reading'' of None \<Rightarrow> JNull | Some v \<Rightarrow> v)
        \<and> w = (case field form ''word'' of None \<Rightarrow> r | Some v \<Rightarrow> v)
        \<and> ds = take 3 (concat (map (\<lambda>sense. items (field sense ''english_definitions''))
                                 (take 3 (items (field entry ''senses'')))))
        \<and> truthy r \<and> truthy w \<and> ds \<noteq> []"
  then have web: "web (search_url word) = Response 200 body"
    and ex: "extractable body"
    and entries: "items (result_list body) = entry # entries"
    and forms: "items (field entry ''japanese'') = form # forms"
    and r: "r = (case field form ''reading'' of None \<Rightarrow> JNull | Some v \<Rightarrow> v)"
    and w: "w = (case field form ''word'' of None \<Rightarrow> r | Some v \<Rightarrow> v)"
    and ds: "ds = take 3 (concat (map (\<lambda>sense. items (field sense ''english_definitions''))
                                 (take 3 (items (field entry ''senses'')))))"
    and truthy: "truthy r" "truthy w" "ds \<noteq> []"
    by blast+
  obtain res where res: "get_definitions web word = Inr res"
    using get_definitions_total[of web word body] web ex by blast
  from web res show "get_definitions web word = Inr (Some (w, r, ds))"
  proof (cases rule: get_definitions_cases)
    case no_results
    with entries show ?thesis by simp
  next
    case (first_entry entry' entries' form' forms')
    from first_entry(1) entries have e: "entry' = entry" by simp
    from first_entry(3) forms e have f: "form' = form" by simp
    have r': "reading_of entry' = r"
      using first_entry(4) f r by simp
    have w': "surface_of entry' = w"
      using first_entry(5) f r' w by (simp split: option.splits)
    have d': "definitions_of entry' = ds"
      using e ds by (simp add: definitions_of_def)
    from first_entry(6) have "res = Some (w, r, ds)"
      unfolding r' w' d' using truthy by simp
    with res show ?thesis by simp
  qed
qed

theorem get_definitions_first_entry_witness:
  "get_definitions dictionary [29356]
     = Inr (Some (JStr [29356], JStr [12356, 12396], [JStr (lit ''dog'')]))
   \<and> (\<exists>body entry entries form forms.
         dictionary (search_url [29356]) = Response 200 body
         \<and> items (result_list body) = entry # entries
         \<and> items (field entry ''japanese'') = form # forms
         \<and> JStr [12356, 12396] = (case field form ''reading'' of None \<Rightarrow> JNull | Some v \<Rightarrow> v)
         \<and> JStr [29356] = (case field form ''word'' of None \<Rightarrow> JStr [12356, 12396] | Some v \<Rightarrow> v)
         \<and> [JStr (lit ''dog'')] =
             take 3 (concat (map (\<lambda>sense. items (field sense ''english_definitions''))
                             (take 3 (items (field entry ''senses''))))))
   \<and> library (search_url [29483]) = Response 200 (Some cat_body)
   \<and> extractable (Some cat_body)
   \<and> items (result_list (Some cat_body)) = [cat_entry, dog_entry]
   \<and> items (field cat_entry ''japanese'')
       = [JObj [(lit ''reading'', JStr [12397, 12371])],
          JObj [(lit ''word'', JStr [29483]), (lit ''reading'', JStr [12397, 12371])]]
   \<and> field (JObj [(lit ''reading'', JStr [12397, 12371])]) ''word'' = None
   \<and> length (items (field cat_entry ''senses'')) = 4
   \<and> concat (map (\<lambda>sense. items (field sense ''english_definitions''))
               (take 3 (items (field cat_entry ''senses''))))
       = [JStr (lit ''cat''), JStr (lit ''kitty''), JStr (lit ''puss''), JStr (lit ''feline''),
          JStr (lit ''moggy'')]
   \<and> get_definitions library [29483]
       = Inr (Some (JStr [12397, 12371], JStr [12397, 12371],
                    [JStr (lit ''cat''), JStr (lit ''kitty''), JStr (lit ''puss'')]))
   \<and> library (search_url [40165]) = Response 200 (Some bird_body)
   \<and> extractable (Some bird_body)
   \<and> concat (map (\<lambda>sense. items (field sense ''english_definitions''))
               (items (field bird_entry ''senses'')))
       = [JStr (lit ''bird''), JStr (lit ''fowl''), JStr (lit ''chicken'')]
   \<and> get_definitions library [40165]
       = Inr (Some (JStr [40165], JStr [12392, 12426], [JStr (lit ''bird''), JStr (lit ''fowl'')]))"
proof -
  have found: "get_definitions dictionary [29356]
     = Inr (Some (JStr [29356], JStr [12356, 12396], [JStr (lit ''dog'')]))"
    by (simp add: dictionary_def get_definitions_def dog_body_def dog_entry_def
        response_json_def)
  have dog: "\<exists>body entry entries form forms.
         dictionary (search_url [29356]) = Response 200 body
         \<and> items (result_list body) = entry # entries
         \<and> items (field entry ''japanese'') = form # forms
         \<and> JStr [12356, 12396] = (case field form ''reading'' of None \<Rightarrow> JNull | Some v \<Rightarrow> v)
         \<and> JStr [29356] = (case field form ''word'' of None \<Rightarrow> JStr [12356, 12396] | Some v \<Rightarrow> v)
         \<and> [JStr (lit ''dog'')] =
             take 3 (concat (map (\<lambda>sense. items (field sense ''english_definitions''))
                             (take 3 (items (field entry ''senses'')))))"
    using found
      get_definitions_first_entry[of dictionary "[29356]" "JStr [29356]" "JStr [12356, 12396]"
        "[JStr (lit ''dog'')]"]
    by blast
  have cat: "library (search_url [29483]) = Response 200 (Some cat_body)"
    "library (search_url [40165]) = Response 200 (Some bird_body)"
    by (simp_all add: library_def)
  have cat_shape: "items (result_list (Some cat_body)) = [cat_entry, dog_entry]"
    "items (field cat_entry ''japanese'')
       = [JObj [(lit ''reading'', JStr [12397, 12371])],
          JObj [(lit ''word'', JStr [29483]), (lit ''reading'', JStr [12397, 12371])]]"
    "field (JObj [(lit ''reading'', JStr [12397, 12371])]) ''word'' = None"
    "length (items (field cat_entry ''senses'')) = 4"
    "concat (map (\<lambda>sense. items (field sense ''english_definitions''))
               (take 3 (items (field cat_entry ''senses''))))
       = [JStr (lit ''cat''), JStr (lit ''kitty''), JStr (lit ''puss''), JStr (lit ''feline''),
          JStr (lit ''moggy'')]"
    by (simp_all add: cat_body_def cat_entry_def sense_group_def accessor_defs)
  have bird: "concat (map (\<lambda>sense. items (field sense ''english_definitions''))
               (items (field bird_entry ''senses'')))
       = [JStr (lit ''bird''), JStr (lit ''fowl''), JStr (lit ''chicken'')]"
    by (simp add: bird_entry_def sense_group_def accessor_defs)
  show ?thesis
    using found dog cat cat_shape bird library_lookups(1,2) library_extractable(1,2)
    by simp
qed

text \<open>
  C10, as amended.  A response with status 200 makes \<open>get_definitions\<close> raise, instead of
  returning a not-found result, whenever its body is not JSON with a \<open>data\<close> key, or the
  result list is non-empty and its first entry lacks a non-empty \<open>japanese\<close> list, or one
  of the first three sense groups of that entry lacks \<open>english_definitions\<close>.  Only the
  first three sense groups are examined.
\<close>

theorem get_definitions_raises:
  assumes "web (search_url word) = Response 200 body"
    and "\<not> examined_shape body"
  shows "\<exists>e. get_definitions web word = Inl e"
proof (cases "get_definitions web word")
  case (Inl e)
  then show ?thesis by simp
next
  case (Inr res)
  with assms(1) have "examined_shape body"
    by (rule get_definitions_shape)
  with assms(2) show ?thesis by simp
qed

theorem get_definitions_raises_witness:
  "(\<lambda>url. Response 200 (Some (JObj [(lit ''data'', JArr [JObj []])]))) (search_url [29356])
     = Response 200 (Some (JObj [(lit ''data'', JArr [JObj []])]))
   \<and> \<not> examined_shape (Some (JObj [(lit ''data'', JArr [JObj []])]))
   \<and> get_definitions (\<lambda>url. Response 200 (Some (JObj [(lit ''data'', JArr [JObj []])]))) [29356]
       = Inl KeyError"
  using get_definitions_raises[of "\<lambda>url. Response 200 (Some (JObj [(lit ''data'', JArr [JObj []])]))"
      "[29356]" "Some (JObj [(lit ''data'', JArr [JObj []])])"]
  by (simp add: get_definitions_def response_json_def examined_shape_def shape_where_def
      result_list_def field_def nonempty_list_def entry_of_def first_entry_def first_of_def
      items_def)

text \<open>
  The claim as stated asks for the key in every sense group.  A response whose fourth
  sense group lacks it violates that, and the lookup still returns a triple: the slice
  \<open>[:3]\<close> never reaches the fourth group.
\<close>

theorem fourth_sense_not_examined:
  "\<not> claimed_shape (Some four_senses)
   \<and> get_definitions (\<lambda>url. Response 200 (Some four_senses)) [29483]
       = Inr (Some (JStr [12397, 12371], JStr [12397, 12371],
                    [JStr (lit ''cat''), JStr (lit ''kitty''), JStr (lit ''puss'')]))"
  by (simp add: get_definitions_def response_json_def claimed_shape_def shape_where_def
      result_list_def field_def nonempty_list_def entry_of_def first_entry_def first_of_def
      items_def four_senses_def sense_def has_key_def)

section \<open>The batch processor\<close>

subsection \<open>No lookup divides\<close>

lemma and_then_Inl: "and_then m f = Inl e \<longleftrightarrow> m = Inl e \<or> (\<exists>x. m = Inr x \<and> f x = Inl e)"
  by (cases m) auto

lemma subscript_no_zde: "subscript v k \<noteq> Inl ZeroDivisionError"
  by (cases v) (auto split: option.splits)

lemma first_item_no_zde: "first_item v \<noteq> Inl ZeroDivisionError"
  by (cases v rule: first_item.cases) auto

lemma py_get_no_zde: "py_get v k d \<noteq> Inl ZeroDivisionError"
  by (cases v) auto

lemma slice3_no_zde: "slice3 v \<noteq> Inl ZeroDivisionError"
  by (cases v) auto

lemma iterate_no_zde: "iterate v \<noteq> Inl ZeroDivisionError"
  by (cases v) auto

lemma map_py_no_zde:
  "(\<And>x. f x \<noteq> Inl ZeroDivisionError) \<Longrightarrow> map_py f xs \<noteq> Inl ZeroDivisionError"
  by (induction xs) (auto simp: and_then_Inl)

lemma str_items_no_zde: "str_items vs \<noteq> Inl ZeroDivisionError"
  by (induction vs rule: str_items.induct) (auto simp: and_then_Inl)

lemma output_record_no_zde: "output_record py_str result \<noteq> Inl ZeroDivisionError"
  by (cases result)
    (auto simp: output_record_def join_definitions_def and_then_Inl str_items_no_zde)

lemma get_definitions_no_zde: "get_definitions web word \<noteq> Inl ZeroDivisionError"
  by (auto simp: get_definitions_def and_then_Inl response_json_def subscript_no_zde
      first_item_no_zde py_get_no_zde slice3_no_zde iterate_no_zde map_py_no_zde Let_def
      split: http_outcome.splits option.splits)


subsection \<open>One word\<close>

lemma process_word_raises:
  "get_definitions web word = Inl e \<Longrightarrow>
     process_word web py_str total_words st word = (Some e, st\<lparr>calls := calls st @ [Checking word]\<rparr>)"
  by (simp add: process_word_def)

lemma process_word_not_found:
  "get_definitions web word = Inr None \<Longrightarrow> 0 < total_words \<Longrightarrow>
     process_word web py_str total_words st word =
       (None, st\<lparr>not_found_words := not_found_words st @ [word],
                 words_checked := words_checked st + 1,
                 calls := calls st @ [Checking word,
                            Progress (of_nat (words_checked st + 1) / of_nat total_words)]\<rparr>)"
  by (simp add: process_word_def Let_def)

lemma process_word_found:
  "get_definitions web word = Inr (Some result) \<Longrightarrow> output_record py_str result = Inr line
     \<Longrightarrow> 0 < total_words \<Longrightarrow>
     process_word web py_str total_words st word =
       (None, st\<lparr>outfile := outfile st @ line,
                 words_checked := words_checked st + 1,
                 calls := calls st @ [Checking word,
                            Progress (of_nat (words_checked st + 1) / of_nat total_words)]\<rparr>)"
  by (simp add: process_word_def Let_def)

lemma process_word_unformattable:
  "get_definitions web word = Inr (Some result) \<Longrightarrow> output_record py_str result = Inl e \<Longrightarrow>
     process_word web py_str total_words st word = (Some e, st\<lparr>calls := calls st @ [Checking word]\<rparr>)"
  by (simp add: process_word_def Let_def)

text \<open>Every way through the loop body, by the outcome of the lookup.\<close>

lemma process_word_cases:
  obtains (raises) e where "get_definitions web word = Inl e"
      and "process_word web py_str total_words st word
             = (Some e, st\<lparr>calls := calls st @ [Checking word]\<rparr>)"
  | (unformattable) result e where "get_definitions web word = Inr (Some result)"
      and "output_record py_str result = Inl e"
      and "process_word web py_str total_words st word
             = (Some e, st\<lparr>calls := calls st @ [Checking word]\<rparr>)"
  | (zero) "total_words = 0" and "fst (process_word web py_str total_words st word) = Some ZeroDivisionError"
      and "\<forall>p. Progress p \<in> set (calls (snd (process_word web py_str total_words st word)))
               \<longrightarrow> Progress p \<in> set (calls st)"
  | (not_found) "0 < total_words" and "get_definitions web word = Inr None"
      and "process_word web py_str total_words st word =
       (None, st\<lparr>not_found_words := not_found_words st @ [word],
                 words_checked := words_checked st + 1,
                 calls := calls st @ [Checking word,
                            Progress (of_nat (words_checked st + 1) / of_nat total_words)]\<rparr>)"
  | (found) result line where "0 < total_words" and "get_definitions web word = Inr (Some result)"
      and "output_record py_str result = Inr line"
      and "process_word web py_str total_words st word =
       (None, st\<lparr>outfile := outfile st @ line,
                 words_checked := words_checked st + 1,
                 calls := calls st @ [Checking word,
                            Progress (of_nat (words_checked st + 1) / of_nat total_words)]\<rparr>)"
proof (cases "get_definitions web word")
  case (Inl e)
  then show ?thesis using raises process_word_raises by blast
next
  case (Inr res)
  show ?thesis
  proof (cases res)
    case None
    show ?thesis
    proof (cases "total_words = 0")
      case True
      with Inr None show ?thesis
        by (intro zero) (simp_all add: process_word_def Let_def)
    next
      case False
      with Inr None show ?thesis
        using not_found process_word_not_found[of web word total_words py_str st] by simp
    qed
  next
    case (Some result)
    show ?thesis
    proof (cases "output_record py_str result")
      case (Inl e)
      with Inr Some show ?thesis
        using unformattable process_word_unformattable by blast
    next
      case line: (Inr line)
      show ?thesis
      proof (cases "total_words = 0")
        case True
        with Inr Some line show ?thesis
          by (intro zero) (simp_all add: process_word_def Let_def)
      next
        case False
        with Inr Some line show ?thesis
          using found[of result line] process_word_found[of web word result py_str line total_words st]
          by simp
      qed
    qed
  qed
qed

lemma process_words_append:
  "process_words web py_str total_words st (xs @ ys) =
     (case process_words web py_str total_words st xs of
        (Some e, st') \<Rightarrow> (Some e, st')
      | (None, st') \<Rightarrow> process_words web py_str total_words st' ys)"
  by (induction xs arbitrary: st) (auto split: prod.splits option.splits)

lemma process_lines_words:
  "process_lines web py_str total_words st ls =
     process_words web py_str total_words st (concat (map words_of_line ls))"
  by (induction ls arbitrary: st) (auto simp: process_words_append split: prod.splits option.splits)

lemma record_of_not_found: "\<not> found web word \<Longrightarrow> record_of web py_str word = []"
  by (auto simp: found_def record_of_def split: sum.splits option.splits)

lemma concat_records_found:
  "concat (map (record_of web py_str) ws) = concat (map (record_of web py_str) (filter (found web) ws))"
  by (induction ws) (auto simp: record_of_not_found)

text \<open>A pass that is not left by an exception: what it wrote, listed and counted.\<close>

lemma process_words_returns:
  assumes "process_words web py_str total_words st ws = (None, st')"
  shows "outfile st' = outfile st @ concat (map (record_of web py_str) ws)
         \<and> not_found_words st' = not_found_words st @ filter (not_found web) ws
         \<and> words_checked st' = words_checked st + length ws"
  using assms
proof (induction ws arbitrary: st)
  case Nil
  then show ?case by simp
next
  case (Cons w ws)
  show ?case
  proof (cases rule: process_word_cases[of web w py_str total_words st])
    case (raises e)
    with Cons.prems show ?thesis by simp
  next
    case (unformattable result e)
    with Cons.prems show ?thesis by simp
  next
    case zero
    with Cons.prems show ?thesis
      by (cases "process_word web py_str total_words st w") auto
  next
    case not_found
    with Cons.prems Cons.IH[of "snd (process_word web py_str total_words st w)"]
    show ?thesis
      by (simp add: record_of_def not_found_def)
  next
    case (found result line)
    with Cons.prems Cons.IH[of "snd (process_word web py_str total_words st w)"]
    show ?thesis
      by (simp add: record_of_def not_found_def)
  qed
qed

lemma ratio_unit:
  "0 < t \<Longrightarrow> k \<le> t \<Longrightarrow> 0 \<le> (of_nat k / of_nat t :: rat) \<and> (of_nat k / of_nat t :: rat) \<le> 1"
  by (simp add: divide_le_eq_1)

text \<open>
  The invariant of the progress reports: while the words checked and the words still to
  come do not exceed the total, every report lies between 0 and 1 and no division by zero
  is met.
\<close>

lemma reports_ok_step:
  assumes "reports_ok es" and "0 < t" and "k \<le> t"
  shows "reports_ok (es @ [Checking w, Progress (of_nat k / of_nat t)])"
  using assms(1) ratio_unit[OF assms(2,3)] unfolding reports_ok_def by auto

lemma reports_ok_checking: "reports_ok es \<Longrightarrow> reports_ok (es @ [Checking w])"
  unfolding reports_ok_def by auto

lemma process_words_progress:
  assumes "words_checked st + length ws \<le> total_words"
    and "reports_ok (calls st)"
  shows "reports_ok (calls (snd (process_words web py_str total_words st ws)))
         \<and> fst (process_words web py_str total_words st ws) \<noteq> Some ZeroDivisionError"
  using assms
proof (induction ws arbitrary: st)
  case Nil
  then show ?case by simp
next
  case (Cons w ws)
  have pos: "0 < total_words" and le: "words_checked st + 1 \<le> total_words"
    using Cons.prems(1) by simp_all
  show ?case
  proof (cases rule: process_word_cases[of web w py_str total_words st])
    case (raises e)
    have "e \<noteq> ZeroDivisionError"
      using raises(1) get_definitions_no_zde[of web w] by auto
    with raises(2) reports_ok_checking[OF Cons.prems(2)] show ?thesis by simp
  next
    case (unformattable result e)
    have "e \<noteq> ZeroDivisionError"
      using unformattable(2) output_record_no_zde[of py_str result] by auto
    with unformattable(3) reports_ok_checking[OF Cons.prems(2)] show ?thesis by simp
  next
    case zero
    with pos show ?thesis by simp
  next
    case not_found
    define st' where "st' = st\<lparr>not_found_words := not_found_words st @ [w],
                 words_checked := words_checked st + 1,
                 calls := calls st @ [Checking w,
                            Progress (of_nat (words_checked st + 1) / of_nat total_words)]\<rparr>"
    have step: "process_word web py_str total_words st w = (None, st')"
      using not_found(3) by (simp add: st'_def)
    have "words_checked st' + length ws \<le> total_words"
      using Cons.prems(1) by (simp add: st'_def)
    moreover have "reports_ok (calls st')"
      using reports_ok_step[OF Cons.prems(2) pos le] by (simp add: st'_def)
    ultimately show ?thesis
      using Cons.IH[of st'] step by simp
  next
    case (found result line)
    define st' where "st' = st\<lparr>outfile := outfile st @ line,
                 words_checked := words_checked st + 1,
                 calls := calls st @ [Checking w,
                            Progress (of_nat (words_checked st + 1) / of_nat total_words)]\<rparr>"
    have step: "process_word web py_str total_words st w = (None, st')"
      using found(4) by (simp add: st'_def)
    have "words_checked st' + length ws \<le> total_words"
      using Cons.prems(1) by (simp add: st'_def)
    moreover have "reports_ok (calls st')"
      using reports_ok_step[OF Cons.prems(2) pos le] by (simp add: st'_def)
    ultimately show ?thesis
      using Cons.IH[of st'] step by simp
  qed
qed

subsection \<open>The whole run\<close>

lemma file_tokens_empty [simp]: "file_tokens [] = []"
  by (simp add: file_tokens_def)

text \<open>A run that opens both files, as one pass over the tokens the second pass reads.\<close>

lemma process_file_opened:
  assumes "readable fs input_filename = Some t" and "writable fs output_filename"
  shows "process_file web py_str fs input_filename output_filename =
     (case process_words web py_str (first_pass t) start_state
             (file_tokens (if input_filename = output_filename then [] else t)) of
        (Some e, st) \<Rightarrow>
          \<lparr>raised = Some e,
           files = fs\<lparr>readable := (readable fs)(output_filename \<mapsto> outfile st)\<rparr>,
           callbacks = calls st\<rparr>
      | (None, st) \<Rightarrow>
          \<lparr>raised = None,
           files = fs\<lparr>readable := (readable fs)(output_filename \<mapsto>
                      outfile st @ not_found_section (not_found_words st))\<rparr>,
           callbacks = calls st @ [Cleared]\<rparr>)"
  using assms
  by (simp add: process_file_def Let_def process_lines_words file_tokens_def start_state_def)

lemma process_file_unopened:
  assumes "readable fs input_filename = None \<or> \<not> writable fs output_filename"
  shows "process_file web py_str fs input_filename output_filename =
           \<lparr>raised = Some OSError, files = fs, callbacks = []\<rparr>"
  using assms by (auto simp: process_file_def Let_def split: option.splits)


lemma example_lookups:
  "get_definitions dictionary [29356]
     = Inr (Some (JStr [29356], JStr [12356, 12396], [JStr (lit ''dog'')]))"
  "get_definitions dictionary [29483] = Inr None"
  by (simp_all add: dictionary_def get_definitions_def dog_body_def dog_entry_def
      response_json_def)

lemma example_tokens: "file_tokens word_list = [[29356], [29483]]"
  by (simp add: file_tokens_def word_list_def words_of_line_def py_split_def py_replace_def
      py_strip_def is_space_def comma_def space_def japanese_comma_def newline_def)

lemma example_first_pass: "first_pass word_list = 3"
  by (simp add: first_pass_def word_list_def count_line_def py_split_def py_replace_def
      py_strip_def is_space_def comma_def space_def japanese_comma_def newline_def)

lemma example_record:
  "output_record py_str (JStr [29356], JStr [12356, 12396], [JStr (lit ''dog'')])
     = Inr ([29356] @ lit ''['' @ [12356, 12396] @ lit ''];dog;'' @ [newline])"
  by (simp add: output_record_def join_definitions_def format_value_def lit_def)

lemma example_run:
  "process_file dictionary py_str example_files (lit ''words.txt'') (lit ''out.txt'') =
     \<lparr>raised = None,
      files = example_files\<lparr>readable := (readable example_files)(lit ''out.txt'' \<mapsto>
                 [29356] @ lit ''['' @ [12356, 12396] @ lit ''];dog;'' @ [newline]
                 @ [newline] @ lit ''Definition Not Found:'' @ [newline] @ [29483, newline])\<rparr>,
      callbacks = [Checking [29356], Progress (1 / 3), Checking [29483], Progress (2 / 3),
                   Cleared]\<rparr>"
proof -
  have r: "readable example_files (lit ''words.txt'') = Some word_list"
    and w: "writable example_files (lit ''out.txt'')"
    by (simp_all add: example_files_def)
  have "process_words dictionary py_str 3 start_state [[29356], [29483]] =
          (None, \<lparr>outfile = [29356] @ lit ''['' @ [12356, 12396] @ lit ''];dog;'' @ [newline],
                  not_found_words = [[29483]], words_checked = 2,
                  calls = [Checking [29356], Progress (1 / 3), Checking [29483],
                           Progress (2 / 3)]\<rparr>)"
    by (simp add: process_word_def example_lookups example_record start_state_def Let_def)
  then show ?thesis
    by (simp add: process_file_opened[OF r w] example_tokens example_first_pass
        not_found_section_def)
qed

subsection \<open>The claims about a run\<close>

text \<open>
  C8.  If the input file cannot be opened, \<open>process_file\<close> fails (the \<open>OSError\<close> of the first
  \<open>open\<close>) before any output: the files are as they were, so the output file is neither
  created nor modified, and no callback has been called.
\<close>

theorem unopened_input_leaves_no_output:
  assumes "readable fs input_filename = None"
  shows "process_file web py_str fs input_filename output_filename =
           \<lparr>raised = Some OSError, files = fs, callbacks = []\<rparr>"
  using assms by (simp add: process_file_unopened)

theorem unopened_input_leaves_no_output_witness:
  "readable example_files (lit ''missing.txt'') = None
   \<and> raised (process_file dictionary (\<lambda>v. []) example_files (lit ''missing.txt'') (lit ''out.txt''))
       = Some OSError
   \<and> files (process_file dictionary (\<lambda>v. []) example_files (lit ''missing.txt'') (lit ''out.txt''))
       = example_files
   \<and> readable (files (process_file dictionary (\<lambda>v. []) example_files (lit ''missing.txt'')
         (lit ''out.txt''))) (lit ''out.txt'') = None"
  using unopened_input_leaves_no_output[of example_files "lit ''missing.txt''" dictionary
      "\<lambda>v. []" "lit ''out.txt''"]
  by (simp add: example_files_def)

text \<open>
  C9.  For every input file, every fraction passed to the progress callback lies in
  \<open>[0, 1]\<close>; the run never ends in a division by zero; the total of the first pass is never
  smaller than the number of tokens of the file, which is all the main pass can process;
  and a file whose first pass counts zero triggers no progress call.
\<close>

theorem progress_in_unit_interval:
  "(\<forall>p. Progress p \<in> set (callbacks (process_file web py_str fs input_filename output_filename))
        \<longrightarrow> 0 \<le> p \<and> p \<le> 1)
   \<and> raised (process_file web py_str fs input_filename output_filename) \<noteq> Some ZeroDivisionError
   \<and> (\<forall>t. readable fs input_filename = Some t \<longrightarrow>
          length (file_tokens t) \<le> first_pass t
          \<and> (first_pass t = 0 \<longrightarrow>
               (\<forall>p. Progress p \<notin> set (callbacks
                      (process_file web py_str fs input_filename output_filename)))))"
proof (cases "readable fs input_filename = None \<or> \<not> writable fs output_filename")
  case True
  then have "process_file web py_str fs input_filename output_filename =
           \<lparr>raised = Some OSError, files = fs, callbacks = []\<rparr>"
    by (rule process_file_unopened)
  then show ?thesis
    using tokens_le_first_pass by (simp add: file_tokens_def)
next
  case False
  then obtain t where r: "readable fs input_filename = Some t"
    and w: "writable fs output_filename" by auto
  define ws where "ws = file_tokens (if input_filename = output_filename then [] else t)"
  obtain e st where run: "process_words web py_str (first_pass t) start_state ws = (e, st)"
    by (cases "process_words web py_str (first_pass t) start_state ws") auto
  have le: "length ws \<le> first_pass t"
    using tokens_le_first_pass[of t] by (simp add: ws_def file_tokens_def)
  have inv: "reports_ok (calls st) \<and> e \<noteq> Some ZeroDivisionError"
    using process_words_progress[of start_state ws "first_pass t" web py_str] le run
    by (simp add: start_state_def reports_ok_def)
  have run_eq: "process_file web py_str fs input_filename output_filename =
     (case (e, st) of
        (Some e, st) \<Rightarrow>
          \<lparr>raised = Some e,
           files = fs\<lparr>readable := (readable fs)(output_filename \<mapsto> outfile st)\<rparr>,
           callbacks = calls st\<rparr>
      | (None, st) \<Rightarrow>
          \<lparr>raised = None,
           files = fs\<lparr>readable := (readable fs)(output_filename \<mapsto>
                      outfile st @ not_found_section (not_found_words st))\<rparr>,
           callbacks = calls st @ [Cleared]\<rparr>)"
    using process_file_opened[OF r w, of web py_str] run by (simp add: ws_def)
  have reports: "reports_ok (callbacks (process_file web py_str fs input_filename output_filename))"
    using inv run_eq by (cases e) (auto simp: reports_ok_def)
  have raised: "raised (process_file web py_str fs input_filename output_filename)
                  \<noteq> Some ZeroDivisionError"
    using inv run_eq by (cases e) auto
  have none: "\<forall>p. Progress p \<notin> set (callbacks
                 (process_file web py_str fs input_filename output_filename))"
    if "first_pass t = 0"
  proof -
    have "ws = []" using le that by simp
    with run have "e = None" "st = start_state" by simp_all
    with run_eq show ?thesis by (simp add: start_state_def)
  qed
  show ?thesis
    using reports raised none r tokens_le_first_pass[of t]
    by (simp add: reports_ok_def file_tokens_def)
qed

theorem progress_in_unit_interval_witness:
  "Progress (2 / 3) \<in> set (callbacks
       (process_file dictionary (\<lambda>v. []) example_files (lit ''words.txt'') (lit ''out.txt'')))
   \<and> (0::rat) \<le> 2 / 3 \<and> (2 / 3 :: rat) \<le> 1
   \<and> raised (process_file dictionary (\<lambda>v. []) example_files (lit ''words.txt'') (lit ''out.txt''))
       \<noteq> Some ZeroDivisionError
   \<and> readable example_files (lit ''words.txt'') = Some word_list
   \<and> length (file_tokens word_list) \<le> first_pass word_list
   \<and> readable example_files (lit ''empty.txt'') = Some []
   \<and> first_pass [] = 0
   \<and> callbacks (process_file dictionary (\<lambda>v. []) example_files (lit ''empty.txt'') (lit ''out.txt''))
       = [Cleared]"
proof -
  have r: "readable example_files (lit ''words.txt'') = Some word_list"
    and e: "readable example_files (lit ''empty.txt'') = Some []"
    and w: "writable example_files (lit ''out.txt'')"
    by (simp_all add: example_files_def)
  have empty: "callbacks (process_file dictionary (\<lambda>v. []) example_files (lit ''empty.txt'')
                 (lit ''out.txt'')) = [Cleared]"
    by (simp add: process_file_opened[OF e w] start_state_def)
  show ?thesis
    using r e empty
      progress_in_unit_interval[of dictionary "\<lambda>v. []" example_files "lit ''words.txt''"
        "lit ''out.txt''"]
      progress_in_unit_interval[of dictionary "\<lambda>v. []" example_files "lit ''empty.txt''"
        "lit ''out.txt''"]
    by (simp add: example_run example_tokens example_first_pass first_pass_def)
qed


text \<open>
  C5, as amended.  For every input file on which the run completes, the output file is
  the records of the found tokens, in order, followed by the trailing section.  No token
  whose lookup returned no result has a record in the main section; each such token, once
  per occurrence in the input and in the order met, has one line in the trailing section;
  and that section is absent when every token was found, and otherwise is a blank line,
  the header line \<open>Definition Not Found:\<close>, then those lines.
\<close>

theorem not_found_words_trail:
  assumes "readable fs input_filename = Some t"
    and "raised (process_file web py_str fs input_filename output_filename) = None"
  shows "readable (files (process_file web py_str fs input_filename output_filename))
           output_filename =
         Some (concat (map (record_of web py_str)
                 (filter (found web) (tokens_read input_filename output_filename t)))
               @ (if filter (not_found web) (tokens_read input_filename output_filename t) = []
                  then []
                  else [newline] @ lit ''Definition Not Found:'' @ [newline]
                       @ concat (map (\<lambda>word. word @ [newline])
                           (filter (not_found web)
                              (tokens_read input_filename output_filename t)))))"
proof -
  define ws where "ws = tokens_read input_filename output_filename t"
  have w: "writable fs output_filename"
  proof (rule ccontr)
    assume "\<not> writable fs output_filename"
    then have "raised (process_file web py_str fs input_filename output_filename) = Some OSError"
      by (simp add: process_file_unopened)
    with assms(2) show False by simp
  qed
  obtain e st where run: "process_words web py_str (first_pass t) start_state ws = (e, st)"
    by (cases "process_words web py_str (first_pass t) start_state ws") auto
  have run_eq: "process_file web py_str fs input_filename output_filename =
     (case (e, st) of
        (Some e, st) \<Rightarrow>
          \<lparr>raised = Some e,
           files = fs\<lparr>readable := (readable fs)(output_filename \<mapsto> outfile st)\<rparr>,
           callbacks = calls st\<rparr>
      | (None, st) \<Rightarrow>
          \<lparr>raised = None,
           files = fs\<lparr>readable := (readable fs)(output_filename \<mapsto>
                      outfile st @ not_found_section (not_found_words st))\<rparr>,
           callbacks = calls st @ [Cleared]\<rparr>)"
    using process_file_opened[OF assms(1) w, of web py_str] run
    by (simp add: ws_def tokens_read_def)
  with assms(2) have e: "e = None" by (cases e) auto
  have "outfile st = concat (map (record_of web py_str) ws)
        \<and> not_found_words st = filter (not_found web) ws"
    using process_words_returns[of web py_str "first_pass t" start_state ws st]
      run e by (simp add: start_state_def)
  then have "readable (files (process_file web py_str fs input_filename output_filename))
           output_filename =
         Some (concat (map (record_of web py_str) (filter (found web) ws))
               @ (if filter (not_found web) ws = [] then []
                  else [newline] @ lit ''Definition Not Found:'' @ [newline]
                       @ concat (map (\<lambda>word. word @ [newline]) (filter (not_found web) ws))))"
    using run_eq e concat_records_found[of web py_str ws]
    by (simp add: not_found_section_def)
  then show ?thesis
    by (simp add: ws_def)
qed

theorem not_found_words_trail_witness:
  "readable example_files (lit ''words.txt'') = Some word_list
   \<and> raised (process_file dictionary (\<lambda>v. []) example_files (lit ''words.txt'') (lit ''out.txt''))
       = None
   \<and> filter (found dictionary) (tokens_read (lit ''words.txt'') (lit ''out.txt'') word_list)
       = [[29356]]
   \<and> filter (not_found dictionary) (tokens_read (lit ''words.txt'') (lit ''out.txt'') word_list)
       = [[29483]]
   \<and> readable (files (process_file dictionary (\<lambda>v. []) example_files (lit ''words.txt'')
         (lit ''out.txt''))) (lit ''out.txt'')
       = Some ([29356] @ lit ''['' @ [12356, 12396] @ lit ''];dog;'' @ [newline]
               @ [newline] @ lit ''Definition Not Found:'' @ [newline] @ [29483, newline])"
proof -
  have "readable example_files (lit ''words.txt'') = Some word_list"
    by (simp add: example_files_def)
  then show ?thesis
    using not_found_words_trail[of example_files "lit ''words.txt''" word_list dictionary
        "\<lambda>v. []" "lit ''out.txt''"]
    by (simp add: example_run example_tokens example_lookups found_def not_found_def
        tokens_read_def)
qed

text \<open>
  The claim as stated speaks of every input file.  When the connection is lost after the
  first word, whose lookup returned no result, the run is left by the exception of the
  second request before the trailing section is written: the output file is empty, and
  the word that was not found appears nowhere in it.
\<close>

theorem lost_connection_leaves_no_section:
  "not_found lost_connection [29356]
   \<and> tokens_read (lit ''words.txt'') (lit ''out.txt'') word_list = [[29356], [29483]]
   \<and> raised (process_file lost_connection (\<lambda>v. []) example_files (lit ''words.txt'')
        (lit ''out.txt'')) = Some ConnectionError
   \<and> readable (files (process_file lost_connection (\<lambda>v. []) example_files (lit ''words.txt'')
        (lit ''out.txt''))) (lit ''out.txt'') = Some []"
proof -
  have r: "readable example_files (lit ''words.txt'') = Some word_list"
    and w: "writable example_files (lit ''out.txt'')"
    by (simp_all add: example_files_def)
  have first: "get_definitions lost_connection [29356] = Inr None"
    and second: "get_definitions lost_connection [29483] = Inl ConnectionError"
    by (simp_all add: get_definitions_def lost_connection_def)
  have "process_words lost_connection (\<lambda>v. []) 3 start_state [[29356], [29483]] =
          (Some ConnectionError,
           \<lparr>outfile = [], not_found_words = [[29356]], words_checked = 1,
            calls = [Checking [29356], Progress (1 / 3), Checking [29483]]\<rparr>)"
    by (simp add: process_word_not_found[OF first] process_word_raises[OF second]
        start_state_def)
  then show ?thesis
    using first
    by (simp add: process_file_opened[OF r w] example_tokens example_first_pass not_found_def
        tokens_read_def)
qed

text \<open>
  C4.  For every word whose lookup returns a triple of strings, the record the loop body
  writes to the output file is \<open>surface[reading];def1, def2, def3;\<close> and a newline when the
  surface form differs from the reading, and \<open>reading;def1, def2, def3;\<close> and a newline
  when they are equal.  In particular, when the lookup of U+72AC returns that word, the
  reading U+3044 U+306C and the one definition \<open>dog\<close>, and the input file holds that word
  alone, the output file is the one line \<open>U+72AC[U+3044 U+306C];dog;\<close>.
\<close>

theorem found_word_record:
  "(get_definitions web word = Inr (Some (JStr surface, JStr reading, map JStr definitions))
      \<longrightarrow> outfile (snd (process_word web py_str total_words st word)) =
           outfile st
           @ (if surface = reading
              then reading @ lit '';'' @ py_join (lit '', '') definitions @ lit '';'' @ [newline]
              else surface @ lit ''['' @ reading @ lit ''];'' @ py_join (lit '', '') definitions
                   @ lit '';'' @ [newline]))
   \<and> (get_definitions web [29356]
         = Inr (Some (JStr [29356], JStr [12356, 12396], [JStr (lit ''dog'')]))
       \<and> readable fs input_filename = Some [29356] \<and> writable fs output_filename
       \<and> input_filename \<noteq> output_filename
      \<longrightarrow> readable (files (process_file web py_str fs input_filename output_filename))
             output_filename
           = Some ([29356] @ lit ''['' @ [12356, 12396] @ lit ''];dog;'' @ [newline]))"
proof (intro conjI impI)
  assume found: "get_definitions web word
                   = Inr (Some (JStr surface, JStr reading, map JStr definitions))"
  have items: "str_items (map JStr definitions) = Inr definitions"
    by (induction definitions) simp_all
  have "output_record py_str (JStr surface, JStr reading, map JStr definitions) =
          Inr (if surface = reading
               then reading @ lit '';'' @ py_join (lit '', '') definitions @ lit '';'' @ [newline]
               else surface @ lit ''['' @ reading @ lit ''];'' @ py_join (lit '', '') definitions
                    @ lit '';'' @ [newline])"
    by (simp add: output_record_def join_definitions_def items format_value_def)
  with found show "outfile (snd (process_word web py_str total_words st word)) =
           outfile st
           @ (if surface = reading
              then reading @ lit '';'' @ py_join (lit '', '') definitions @ lit '';'' @ [newline]
              else surface @ lit ''['' @ reading @ lit ''];'' @ py_join (lit '', '') definitions
                   @ lit '';'' @ [newline])"
    by (simp add: process_word_def Let_def)
next
  assume a: "get_definitions web [29356]
         = Inr (Some (JStr [29356], JStr [12356, 12396], [JStr (lit ''dog'')]))
       \<and> readable fs input_filename = Some [29356] \<and> writable fs output_filename
       \<and> input_filename \<noteq> output_filename"
  have tokens: "file_tokens [29356] = [[29356]]"
    by (simp add: file_tokens_def words_of_line_def py_split_def py_replace_def
        py_strip_def is_space_def comma_def space_def japanese_comma_def newline_def)
  have total: "first_pass [29356] = 1"
    by (simp add: first_pass_def count_line_def py_split_def py_replace_def
        py_strip_def is_space_def comma_def space_def japanese_comma_def newline_def)
  have "process_words web py_str 1 start_state [[29356]] =
          (None, \<lparr>outfile = [29356] @ lit ''['' @ [12356, 12396] @ lit ''];dog;'' @ [newline],
                  not_found_words = [], words_checked = 1,
                  calls = [Checking [29356], Progress 1]\<rparr>)"
    using a by (simp add: process_word_def example_record start_state_def Let_def)
  then show "readable (files (process_file web py_str fs input_filename output_filename))
             output_filename
           = Some ([29356] @ lit ''['' @ [12356, 12396] @ lit ''];dog;'' @ [newline])"
    using a process_file_opened[of fs input_filename "[29356]" output_filename web py_str]
    by (simp add: tokens total not_found_section_def)
qed

theorem found_word_record_witness:
  "get_definitions dictionary [29356]
     = Inr (Some (JStr [29356], JStr [12356, 12396], map JStr [lit ''dog'']))
   \<and> outfile (snd (process_word dictionary (\<lambda>v. []) 3 start_state [29356]))
       = [29356] @ lit ''['' @ [12356, 12396] @ lit ''];dog;'' @ [newline]
   \<and> get_definitions (\<lambda>url. Response 200 (Some four_senses)) [29483]
       = Inr (Some (JStr [12397, 12371], JStr [12397, 12371],
                    map JStr [lit ''cat'', lit ''kitty'', lit ''puss'']))
   \<and> outfile (snd (process_word (\<lambda>url. Response 200 (Some four_senses)) (\<lambda>v. []) 3 start_state
         [29483]))
       = [12397, 12371] @ lit '';cat, kitty, puss;'' @ [newline]
   \<and> readable \<lparr>readable = (\<lambda>path. if path = lit ''dog.txt'' then Some [29356] else None),
                writable = (\<lambda>path. True)\<rparr> (lit ''dog.txt'') = Some [29356]
   \<and> lit ''dog.txt'' \<noteq> lit ''out.txt''
   \<and> readable (files (process_file dictionary (\<lambda>v. [])
         \<lparr>readable = (\<lambda>path. if path = lit ''dog.txt'' then Some [29356] else None),
          writable = (\<lambda>path. True)\<rparr> (lit ''dog.txt'') (lit ''out.txt''))) (lit ''out.txt'')
       = Some ([29356] @ lit ''['' @ [12356, 12396] @ lit ''];dog;'' @ [newline])"
proof -
  have cat: "get_definitions (\<lambda>url. Response 200 (Some four_senses)) [29483]
       = Inr (Some (JStr [12397, 12371], JStr [12397, 12371],
                    map JStr [lit ''cat'', lit ''kitty'', lit ''puss'']))"
    by (simp add: get_definitions_def response_json_def four_senses_def sense_def)
  show ?thesis
    using cat
      found_word_record[of dictionary "[29356]" "[29356]" "[12356, 12396]" "[lit ''dog'']"
        "\<lambda>v. []" 3 start_state
        "\<lparr>readable = (\<lambda>path. if path = lit ''dog.txt'' then Some [29356] else None),
          writable = (\<lambda>path. True)\<rparr>" "lit ''dog.txt''" "lit ''out.txt''"]
      found_word_record[of "\<lambda>url. Response 200 (Some four_senses)" "[29483]" "[12397, 12371]"
        "[12397, 12371]" "[lit ''cat'', lit ''kitty'', lit ''puss'']" "\<lambda>v. []" 3 start_state
        "\<lparr>readable = (\<lambda>path. if path = lit ''dog.txt'' then Some [29356] else None),
          writable = (\<lambda>path. True)\<rparr>" "lit ''dog.txt''" "lit ''out.txt''"]
    by (simp add: example_lookups start_state_def lit_def)
qed

lemma process_words_all_return:
  assumes "process_words web py_str total_words st ws = (None, st')"
  shows "\<forall>w\<in>set ws. \<exists>res. get_definitions web w = Inr res"
  using assms
proof (induction ws arbitrary: st)
  case Nil
  then show ?case by simp
next
  case (Cons w ws)
  show ?case
  proof (cases rule: process_word_cases[of web w py_str total_words st])
    case (raises e)
    with Cons.prems show ?thesis by simp
  next
    case (unformattable result e)
    with Cons.prems show ?thesis by simp
  next
    case zero
    with Cons.prems show ?thesis
      by (cases "process_word web py_str total_words st w") auto
  next
    case not_found
    with Cons.prems Cons.IH[of "snd (process_word web py_str total_words st w)"]
    show ?thesis by simp
  next
    case (found result line)
    with Cons.prems Cons.IH[of "snd (process_word web py_str total_words st w)"]
    show ?thesis by simp
  qed
qed

text \<open>
  C2, as amended.  A lookup answered by an unsuccessful HTTP status is not fatal: the word
  is appended to the not-found list, counted and reported, and the loop goes on with the
  remaining words.  A failed connection is fatal: the exception of the request leaves the
  loop at that word, and a run whose input holds such a word ends in an exception.
\<close>

theorem unsuccessful_status_not_fatal:
  "(web (search_url word) = Response status body \<and> status \<noteq> 200 \<and> 0 < total_words \<longrightarrow>
      process_words web py_str total_words st (word # rest) =
        process_words web py_str total_words
          (st\<lparr>not_found_words := not_found_words st @ [word],
              words_checked := words_checked st + 1,
              calls := calls st @ [Checking word,
                         Progress (of_nat (words_checked st + 1) / of_nat total_words)]\<rparr>)
          rest)
   \<and> (web (search_url word) = RequestFailed \<longrightarrow>
        process_words web py_str total_words st (word # rest) =
          (Some ConnectionError, st\<lparr>calls := calls st @ [Checking word]\<rparr>))
   \<and> (web (search_url word) = RequestFailed \<and> readable fs input_filename = Some t
        \<and> input_filename \<noteq> output_filename \<and> word \<in> set (file_tokens t) \<longrightarrow>
        raised (process_file web py_str fs input_filename output_filename) \<noteq> None)"
proof (intro conjI impI)
  assume a: "web (search_url word) = Response status body \<and> status \<noteq> 200 \<and> 0 < total_words"
  then have "get_definitions web word = Inr None"
    by (simp add: get_definitions_def)
  with a show "process_words web py_str total_words st (word # rest) =
        process_words web py_str total_words
          (st\<lparr>not_found_words := not_found_words st @ [word],
              words_checked := words_checked st + 1,
              calls := calls st @ [Checking word,
                         Progress (of_nat (words_checked st + 1) / of_nat total_words)]\<rparr>)
          rest"
    by (simp add: process_word_not_found)
next
  assume "web (search_url word) = RequestFailed"
  then have "get_definitions web word = Inl ConnectionError"
    by (simp add: get_definitions_def)
  then show "process_words web py_str total_words st (word # rest) =
          (Some ConnectionError, st\<lparr>calls := calls st @ [Checking word]\<rparr>)"
    by (simp add: process_word_raises)
next
  assume a: "web (search_url word) = RequestFailed \<and> readable fs input_filename = Some t
        \<and> input_filename \<noteq> output_filename \<and> word \<in> set (file_tokens t)"
  then have fails: "get_definitions web word = Inl ConnectionError"
    by (simp add: get_definitions_def)
  show "raised (process_file web py_str fs input_filename output_filename) \<noteq> None"
  proof (cases "writable fs output_filename")
    case False
    then show ?thesis by (simp add: process_file_unopened)
  next
    case True
    obtain e st where run:
      "process_words web py_str (first_pass t) start_state (file_tokens t) = (e, st)"
      by (cases "process_words web py_str (first_pass t) start_state (file_tokens t)") auto
    have "e \<noteq> None"
    proof
      assume "e = None"
      with run process_words_all_return[of web py_str "first_pass t" start_state "file_tokens t" st]
        a fails show False by auto
    qed
    with run a True show ?thesis
      using process_file_opened[of fs input_filename t output_filename web py_str] by auto
  qed
qed

theorem unsuccessful_status_not_fatal_witness:
  "dictionary (search_url [29483]) = Response 404 None
   \<and> process_words dictionary (\<lambda>v. []) 3 start_state [[29483], [29356]] =
       process_words dictionary (\<lambda>v. []) 3
         \<lparr>outfile = [], not_found_words = [[29483]], words_checked = 1,
          calls = [Checking [29483], Progress (1 / 3)]\<rparr> [[29356]]
   \<and> no_connection (search_url [29356]) = RequestFailed
   \<and> process_words no_connection (\<lambda>v. []) 3 start_state [[29356], [29483]]
       = (Some ConnectionError,
          \<lparr>outfile = [], not_found_words = [], words_checked = 0, calls = [Checking [29356]]\<rparr>)
   \<and> readable example_files (lit ''words.txt'') = Some word_list
   \<and> [29356] \<in> set (file_tokens word_list)
   \<and> raised (process_file no_connection (\<lambda>v. []) example_files (lit ''words.txt'')
         (lit ''out.txt'')) \<noteq> None"
proof -
  have "readable example_files (lit ''words.txt'') = Some word_list"
    by (simp add: example_files_def)
  then show ?thesis
    using unsuccessful_status_not_fatal[of dictionary "[29483]" 404 None 3 "\<lambda>v. []" start_state
        "[[29356]]" example_files "lit ''words.txt''" word_list "lit ''out.txt''"]
      unsuccessful_status_not_fatal[of no_connection "[29356]" 0 None 3 "\<lambda>v. []" start_state
        "[[29483]]" example_files "lit ''words.txt''" word_list "lit ''out.txt''"]
    by (simp add: dictionary_def no_connection_def start_state_def example_tokens)
qed

text \<open>
  The claim as stated covers a failed connection too.  With no connection, the run over
  \<open>words.txt\<close> is left by the \<open>ConnectionError\<close> at the first word: the second word is never
  looked up, the label is never cleared, and the output file, created empty, lists no
  word as not found.
\<close>

theorem failed_connection_is_fatal:
  "raised (process_file no_connection (\<lambda>v. []) example_files (lit ''words.txt'') (lit ''out.txt''))
     = Some ConnectionError
   \<and> callbacks (process_file no_connection (\<lambda>v. []) example_files (lit ''words.txt'')
        (lit ''out.txt'')) = [Checking [29356]]
   \<and> readable (files (process_file no_connection (\<lambda>v. []) example_files (lit ''words.txt'')
        (lit ''out.txt''))) (lit ''out.txt'') = Some []"
proof -
  have r: "readable example_files (lit ''words.txt'') = Some word_list"
    and w: "writable example_files (lit ''out.txt'')"
    by (simp_all add: example_files_def)
  have "get_definitions no_connection [29356] = Inl ConnectionError"
    by (simp add: get_definitions_def no_connection_def)
  then have "process_words no_connection (\<lambda>v. []) 3 start_state [[29356], [29483]] =
          (Some ConnectionError, start_state\<lparr>calls := [Checking [29356]]\<rparr>)"
    by (simp add: process_word_raises start_state_def)
  then show ?thesis
    by (simp add: process_file_opened[OF r w] example_tokens example_first_pass start_state_def)
qed

text \<open>
  C1 fails on the code.  For the input line U+72AC, comma, space, U+732B the first pass
  counts three pieces (the empty piece between the comma and the space is not discarded),
  while the main pass finds two tokens: the progress callback is called with 1/3 and 2/3,
  where the claim asks for 1/2 and 1.
\<close>

theorem first_pass_counts_empty_pieces:
  "first_pass word_list = 3
   \<and> file_tokens word_list = [[29356], [29483]]
   \<and> callbacks (process_file dictionary (\<lambda>v. []) example_files (lit ''words.txt'')
        (lit ''out.txt''))
       = [Checking [29356], Progress (1 / 3), Checking [29483], Progress (2 / 3), Cleared]"
  by (simp add: example_first_pass example_tokens example_run)

end
